theory Spec2Isabelle
  imports Complex_Main "HOL-Library.Code_Target_Numeral"
begin

section \<open>The inspect verification portfolio of cobbler\<close>

text \<open>
  A shallow embedding of the Go package \<^verbatim>\<open>internal/inspect\<close>: the shared result
  types (\<^verbatim>\<open>types.go\<close>), the composite scorer (\<^verbatim>\<open>composite.go\<close>), the mutation runner
  (\<^verbatim>\<open>mutation.go\<close>) and the translation validator.
\<close>

subsection \<open>float64\<close>

text \<open>
  A \<^verbatim>\<open>float64\<close> is an IEEE 754 binary64 value: a finite number (a real that has the
  form \<open>n * 2 ^ e\<close> with \<open>\<bar>n\<bar> < 2 ^ 53\<close> and \<open>- 1074 \<le> e\<close>, below \<open>2 ^ 1024\<close> in
  absolute value), NaN, or an infinity. The two zeros are one value here: the package
  never prints a zero, and every divisor it uses is a sum started at \<^verbatim>\<open>+0\<close>, which is
  never \<^verbatim>\<open>-0\<close>. Every arithmetic operation computes the exact result and rounds it
  once, to the nearest value, ties to the even significand (\<open>round64\<close>); a product that
  feeds a sum is rounded before the sum, as on amd64, where the Go compiler does not fuse
  the two.
\<close>

datatype float64 = Fin real | NaN | PosInf | NegInf

text \<open>The number of binary digits of a natural number.\<close>

fun bit_length :: "nat \<Rightarrow> nat" where
  "bit_length n = (if n = 0 then 0 else Suc (bit_length (n div 2)))"

declare bit_length.simps [simp del]

definition pow2 :: "int \<Rightarrow> real" where
  "pow2 e = (if 0 \<le> e then 2 ^ nat e else 1 / 2 ^ nat (- e))"

text \<open>The binary exponent of a positive real \<open>x\<close>: the \<open>k\<close> with \<open>2 ^ k \<le> x < 2 ^ (k + 1)\<close>.\<close>

definition ilog2 :: "real \<Rightarrow> int" where
  "ilog2 x =
     (if 1 \<le> x then int (bit_length (nat \<lfloor>x\<rfloor>)) - 1
      else - int (bit_length (nat (\<lceil>1 / x\<rceil> - 1))))"

definition round_half_even :: "real \<Rightarrow> int" where
  "round_half_even y =
     (let f = \<lfloor>y\<rfloor>; d = y - of_int f
      in if d < 1 / 2 then f
         else if 1 / 2 < d then f + 1
         else if even f then f else f + 1)"

text \<open>
  Rounding to binary64: the spacing of the values around \<open>x\<close> is \<open>2 ^ (k - 52)\<close> for the
  binary exponent \<open>k\<close> of \<open>\<bar>x\<bar>\<close>, and \<open>2 ^ (- 1074)\<close> in the subnormal range; a result
  that reaches \<open>2 ^ 1024\<close> overflows to the infinity of its sign.
\<close>

definition round64 :: "real \<Rightarrow> float64" where
  "round64 x =
     (if x = 0 then Fin 0
      else
        let q = pow2 (max (ilog2 \<bar>x\<bar>) (- 1022) - 52);
            r = of_int (round_half_even (x / q)) * q
        in if pow2 1024 \<le> \<bar>r\<bar> then (if 0 < x then PosInf else NegInf) else Fin r)"

fun fadd :: "float64 \<Rightarrow> float64 \<Rightarrow> float64" where
  "fadd (Fin a) (Fin b) = round64 (a + b)"
| "fadd NaN y = NaN"
| "fadd x NaN = NaN"
| "fadd PosInf NegInf = NaN"
| "fadd NegInf PosInf = NaN"
| "fadd PosInf y = PosInf"
| "fadd x PosInf = PosInf"
| "fadd NegInf y = NegInf"
| "fadd x NegInf = NegInf"

fun fmul :: "float64 \<Rightarrow> float64 \<Rightarrow> float64" where
  "fmul (Fin a) (Fin b) = round64 (a * b)"
| "fmul NaN y = NaN"
| "fmul x NaN = NaN"
| "fmul PosInf (Fin b) = (if b = 0 then NaN else if 0 < b then PosInf else NegInf)"
| "fmul NegInf (Fin b) = (if b = 0 then NaN else if 0 < b then NegInf else PosInf)"
| "fmul (Fin a) PosInf = (if a = 0 then NaN else if 0 < a then PosInf else NegInf)"
| "fmul (Fin a) NegInf = (if a = 0 then NaN else if 0 < a then NegInf else PosInf)"
| "fmul PosInf PosInf = PosInf"
| "fmul NegInf NegInf = PosInf"
| "fmul PosInf NegInf = NegInf"
| "fmul NegInf PosInf = NegInf"

text \<open>
  Division does not panic on a zero divisor: \<^verbatim>\<open>0 / 0\<close> is NaN, and any other finite
  value over zero is the infinity of its sign.
\<close>

fun fdiv :: "float64 \<Rightarrow> float64 \<Rightarrow> float64" where
  "fdiv (Fin a) (Fin b) =
     (if b = 0 then (if a = 0 then NaN else if 0 < a then PosInf else NegInf)
      else round64 (a / b))"
| "fdiv NaN y = NaN"
| "fdiv x NaN = NaN"
| "fdiv (Fin a) PosInf = Fin 0"
| "fdiv (Fin a) NegInf = Fin 0"
| "fdiv PosInf (Fin b) = (if 0 \<le> b then PosInf else NegInf)"
| "fdiv NegInf (Fin b) = (if 0 \<le> b then NegInf else PosInf)"
| "fdiv PosInf PosInf = NaN"
| "fdiv PosInf NegInf = NaN"
| "fdiv NegInf PosInf = NaN"
| "fdiv NegInf NegInf = NaN"

text \<open>\<^verbatim>\<open>x >= y\<close> and \<^verbatim>\<open>x < y\<close>: every comparison with NaN is false.\<close>

fun fge :: "float64 \<Rightarrow> float64 \<Rightarrow> bool" where
  "fge (Fin a) (Fin b) = (b \<le> a)"
| "fge NaN y = False"
| "fge x NaN = False"
| "fge PosInf y = True"
| "fge x NegInf = True"
| "fge (Fin a) PosInf = False"
| "fge NegInf (Fin b) = False"
| "fge NegInf PosInf = False"

fun flt :: "float64 \<Rightarrow> float64 \<Rightarrow> bool" where
  "flt (Fin a) (Fin b) = (a < b)"
| "flt NaN y = False"
| "flt x NaN = False"
| "flt PosInf y = False"
| "flt x NegInf = False"
| "flt (Fin a) PosInf = True"
| "flt NegInf (Fin b) = True"
| "flt NegInf PosInf = True"

text \<open>The conversion \<^verbatim>\<open>float64(n)\<close> of a count.\<close>

definition float64_of_nat :: "nat \<Rightarrow> float64" where
  "float64_of_nat n = round64 (real n)"

text \<open>
  For the properties of rounding: the spacing of the values around \<open>x\<close>, the rounded
  real before the overflow test, and the reals that are finite \<^verbatim>\<open>float64\<close> values
  (those that rounding leaves as they are).
\<close>

definition quantum :: "real \<Rightarrow> real" where
  "quantum x = pow2 (max (ilog2 \<bar>x\<bar>) (- 1022) - 52)"

definition rounded :: "real \<Rightarrow> real" where
  "rounded x = of_int (round_half_even (x / quantum x)) * quantum x"

definition finite64 :: "real \<Rightarrow> bool" where
  "finite64 a = (round64 a = Fin a)"

subsection \<open>types.go\<close>

datatype Verdict = VerdictPass | VerdictFail | VerdictSkip

datatype Action = ActionAccept | ActionMend | ActionHumanReview

record Evidence =
  CriterionID :: string
  FilePath :: string
  Detail :: string

record TechniqueResult =
  Name :: string
  Score :: float64
  Verdict :: Verdict
  Evidence :: "Evidence list"
  Deterministic :: bool

record InspectInput =
  CrumbID :: string
  WorkType :: string
  ModifiedFiles :: "string list"
  ModifiedPackages :: "string list"
  Diff :: string
  PRDCriteria :: "string list"
  UCCriteria :: "string list"
  FixtureDir :: string
  PRDRequirements :: "string \<rightharpoonup> string"

record CompositeResult =
  TechniqueResults :: "TechniqueResult list"
  CompositeScore :: float64
  Action :: Action
  ValidScore :: bool

text \<open>
  The package's error values: the three sentinels of \<^verbatim>\<open>types.go\<close>, and \<open>Errorf\<close> for an
  error built by \<^verbatim>\<open>fmt.Errorf\<close> or returned by a collaborator.
\<close>

datatype error =
  ErrInsufficientTechniques
| ErrInvalidWeight
| ErrNoTechniques
| Errorf string

subsection \<open>composite.go\<close>

text \<open>
  A decimal constant of the source, such as \<^verbatim>\<open>0.30\<close>, denotes the \<^verbatim>\<open>float64\<close> nearest
  to it: \<open>round64 (30 / 100)\<close>.
\<close>

record ScorerConfig =
  Weights :: "string \<rightharpoonup> float64"
  AcceptThreshold :: float64
  MendThreshold :: float64
  MinDeterministic :: float64

definition DefaultWeights :: "string \<rightharpoonup> float64" where
  "DefaultWeights =
     [''translation_validation'' \<mapsto> round64 (30 / 100),
      ''mutation_testing'' \<mapsto> round64 (25 / 100),
      ''differential_testing'' \<mapsto> round64 (20 / 100),
      ''property_based_testing'' \<mapsto> round64 (15 / 100),
      ''contract_injection'' \<mapsto> round64 (10 / 100)]"

definition DefaultAcceptThreshold :: float64 where
  "DefaultAcceptThreshold = round64 (80 / 100)"

definition DefaultMendThreshold :: float64 where
  "DefaultMendThreshold = round64 (50 / 100)"

definition DefaultScorerConfig :: ScorerConfig where
  "DefaultScorerConfig =
     \<lparr>Weights = DefaultWeights,
      AcceptThreshold = DefaultAcceptThreshold,
      MendThreshold = DefaultMendThreshold,
      MinDeterministic = round64 (50 / 100)\<rparr>"

record Scorer =
  config :: ScorerConfig

text \<open>\<^verbatim>\<open>NewScorer\<close> stores the configuration; it has no error result and no check.\<close>

definition NewScorer :: "ScorerConfig \<Rightarrow> Scorer" where
  "NewScorer c = \<lparr>config = c\<rparr>"

definition weightFor :: "Scorer \<Rightarrow> string \<Rightarrow> float64" where
  "weightFor s name =
     (case Weights (config s) name of
        Some w \<Rightarrow> w
      | None \<Rightarrow> round64 (10 / 100))"

definition actionFor :: "Scorer \<Rightarrow> float64 \<Rightarrow> Action" where
  "actionFor s score =
     (if fge score (AcceptThreshold (config s)) then ActionAccept
      else if fge score (MendThreshold (config s)) then ActionMend
      else ActionHumanReview)"

text \<open>
  The loop of \<^verbatim>\<open>Score\<close> over the results, on its three accumulators
  \<^verbatim>\<open>weightedSum\<close>, \<^verbatim>\<open>totalWeight\<close> and \<^verbatim>\<open>scored\<close>.
\<close>

fun score_loop ::
  "Scorer \<Rightarrow> TechniqueResult list \<Rightarrow> float64 \<times> float64 \<times> nat \<Rightarrow> float64 \<times> float64 \<times> nat" where
  "score_loop s [] acc = acc"
| "score_loop s (r # rs) (weightedSum, totalWeight, scored) =
     (if Verdict r = VerdictSkip then score_loop s rs (weightedSum, totalWeight, scored)
      else
        let w = weightFor s (Name r)
        in score_loop s rs
             (fadd weightedSum (fmul (Score r) w), fadd totalWeight w, Suc scored))"

text \<open>
  \<^verbatim>\<open>Scorer.Score\<close>. The early return leaves \<^verbatim>\<open>CompositeScore\<close> at the zero value of
  the struct.
\<close>

definition Scorer_Score :: "Scorer \<Rightarrow> TechniqueResult list \<Rightarrow> CompositeResult" where
  "Scorer_Score s results =
     (case score_loop s results (Fin 0, Fin 0, 0) of
        (weightedSum, totalWeight, scored) \<Rightarrow>
          if scored < 2 then
            \<lparr>TechniqueResults = results, CompositeScore = Fin 0,
             Action = ActionHumanReview, ValidScore = False\<rparr>
          else
            let c = fdiv weightedSum totalWeight
            in \<lparr>TechniqueResults = results, CompositeScore = c,
                Action = actionFor s c, ValidScore = True\<rparr>)"

text \<open>The loop of \<^verbatim>\<open>DeterministicWeight\<close>, on \<^verbatim>\<open>deterministicWeight\<close> and \<^verbatim>\<open>totalWeight\<close>.\<close>

fun det_loop ::
  "Scorer \<Rightarrow> TechniqueResult list \<Rightarrow> float64 \<times> float64 \<Rightarrow> float64 \<times> float64" where
  "det_loop s [] acc = acc"
| "det_loop s (r # rs) (deterministicWeight, totalWeight) =
     (if Verdict r = VerdictSkip then det_loop s rs (deterministicWeight, totalWeight)
      else
        let w = weightFor s (Name r)
        in det_loop s rs
             (if Deterministic r then fadd deterministicWeight w else deterministicWeight,
              fadd totalWeight w))"

text \<open>\<^verbatim>\<open>totalWeight == 0\<close> holds for a zero and for nothing else (not for NaN).\<close>

definition DeterministicWeight :: "Scorer \<Rightarrow> TechniqueResult list \<Rightarrow> float64" where
  "DeterministicWeight s results =
     (case det_loop s results (Fin 0, Fin 0) of
        (deterministicWeight, totalWeight) \<Rightarrow>
          if totalWeight = Fin 0 then Fin 0
          else fdiv deterministicWeight totalWeight)"

text \<open>
  The words of the specification, for comparison with the loops: the results that
  take part in the aggregation are those whose verdict is not skip.
\<close>

definition non_skip :: "TechniqueResult list \<Rightarrow> TechniqueResult list" where
  "non_skip rs = filter (\<lambda>r. Verdict r \<noteq> VerdictSkip) rs"

subsection \<open>Strings\<close>

text \<open>
  The functions of Go's \<^verbatim>\<open>strings\<close> and \<^verbatim>\<open>fmt\<close> packages that the package calls, on
  byte strings. \<open>HasSuffix\<close> is \<^verbatim>\<open>strings.HasSuffix\<close>; \<open>Split_newline s\<close> is
  \<^verbatim>\<open>strings.Split(s, "\n")\<close>, which returns one more piece than there are newlines
  (one empty piece for the empty string); \<open>Join_newline\<close> is
  \<^verbatim>\<open>strings.Join(lines, "\n")\<close>; \<open>Replace_first s old new\<close> is
  \<^verbatim>\<open>strings.Replace(s, old, new, 1)\<close>, which replaces the leftmost occurrence of
  \<^verbatim>\<open>old\<close> and returns \<^verbatim>\<open>s\<close> when there is none; \<open>Itoa\<close> is the verb \<^verbatim>\<open>%d\<close>.
\<close>

definition HasSuffix :: "string \<Rightarrow> string \<Rightarrow> bool" where
  "HasSuffix s suffix =
     (if length s < length suffix then False
      else drop (length s - length suffix) s = suffix)"

definition newline :: char where
  "newline = CHR 0x0A"

fun Split_newline :: "string \<Rightarrow> string list" where
  "Split_newline [] = [[]]"
| "Split_newline (c # cs) =
     (if c = newline then [] # Split_newline cs
      else (c # hd (Split_newline cs)) # tl (Split_newline cs))"

fun Join_newline :: "string list \<Rightarrow> string" where
  "Join_newline [] = []"
| "Join_newline [l] = l"
| "Join_newline (l # ls) = l @ [newline] @ Join_newline ls"

fun Replace_first :: "string \<Rightarrow> string \<Rightarrow> string \<Rightarrow> string" where
  "Replace_first [] old new = (if old = [] then new else [])"
| "Replace_first (c # cs) old new =
     (if take (length old) (c # cs) = old then new @ drop (length old) (c # cs)
      else c # Replace_first cs old new)"

fun nat_digits :: "nat \<Rightarrow> string" where
  "nat_digits n =
     (if n < 10 then [char_of (48 + n)]
      else nat_digits (n div 10) @ [char_of (48 + n mod 10)])"

declare nat_digits.simps [simp del]

definition Itoa :: "int \<Rightarrow> string" where
  "Itoa i = (if i < 0 then CHR ''-'' # nat_digits (nat (- i)) else nat_digits (nat i))"

subsection \<open>The collaborators: files, tests, parser\<close>

text \<open>
  The files on disk are a map from paths to contents; a path without a content cannot
  be read. \<^verbatim>\<open>os.WriteFile\<close> can fail: the world carries the outcomes of the writes to
  come, one for each write in order (a write beyond the end of the list succeeds). A
  failed write leaves the file with the content the outcome names, or without one.
\<close>

datatype write_outcome = WriteOk | WriteErr "string option"

record world =
  files :: "string \<rightharpoonup> string"
  outcomes :: "write_outcome list"

definition ReadFile :: "world \<Rightarrow> string \<Rightarrow> error + string" where
  "ReadFile w path =
     (case files w path of
        None \<Rightarrow> Inl (Errorf (''open '' @ path))
      | Some content \<Rightarrow> Inr content)"

definition WriteFile :: "string \<Rightarrow> string \<Rightarrow> world \<Rightarrow> error option \<times> world" where
  "WriteFile path data w =
     (case outcomes w of
        [] \<Rightarrow> (None, w\<lparr>files := (files w)(path \<mapsto> data)\<rparr>)
      | WriteOk # os \<Rightarrow> (None, \<lparr>files = (files w)(path \<mapsto> data), outcomes = os\<rparr>)
      | WriteErr left # os \<Rightarrow>
          (Some (Errorf (''write '' @ path)), \<lparr>files = (files w)(path := left), outcomes = os\<rparr>))"

text \<open>
  The syntax tree of \<^verbatim>\<open>go/ast\<close>, as far as site discovery looks at it: a binary
  expression with its operator and operands, a unary expression with its operator and
  operand, and every other kind of node with its children in the order of the
  traversal. The integer of an expression is the line of its position,
  \<^verbatim>\<open>fset.Position(expr.Pos()).Line\<close>.
\<close>

datatype token =
  ADD | SUB | MUL | QUO | REM
| AND | OR | XOR | SHL | SHR | AND_NOT
| LAND | LOR | ARROW
| EQL | LSS | GTR | ASSIGN | NOT
| NEQ | LEQ | GEQ | TILDE

fun token_String :: "token \<Rightarrow> string" where
  "token_String ADD = ''+''"
| "token_String SUB = ''-''"
| "token_String MUL = ''*''"
| "token_String QUO = ''/''"
| "token_String REM = ''%''"
| "token_String AND = ''&''"
| "token_String OR = ''|''"
| "token_String XOR = ''^''"
| "token_String SHL = ''<<''"
| "token_String SHR = ''>>''"
| "token_String AND_NOT = ''&^''"
| "token_String LAND = ''&&''"
| "token_String LOR = ''||''"
| "token_String ARROW = ''<-''"
| "token_String EQL = ''==''"
| "token_String LSS = ''<''"
| "token_String GTR = ''>''"
| "token_String ASSIGN = ''=''"
| "token_String NOT = ''!''"
| "token_String NEQ = ''!=''"
| "token_String LEQ = ''<=''"
| "token_String GEQ = ''>=''"
| "token_String TILDE = ''~''"

datatype node =
  BinaryExpr int token node node
| UnaryExpr int token node
| OtherNode "node list"

text \<open>
  \<^verbatim>\<open>ast.Inspect\<close> with a function that always returns true: depth first, the node
  before its children. The function of the source appends to a variable it has
  captured; here it takes and returns that variable.
\<close>

fun Inspect :: "(node \<Rightarrow> 'a \<Rightarrow> 'a) \<Rightarrow> node \<Rightarrow> 'a \<Rightarrow> 'a" where
  "Inspect f (BinaryExpr l op x y) acc = Inspect f y (Inspect f x (f (BinaryExpr l op x y) acc))"
| "Inspect f (UnaryExpr l op x) acc = Inspect f x (f (UnaryExpr l op x) acc)"
| "Inspect f (OtherNode cs) acc = fold (Inspect f) cs (f (OtherNode cs) acc)"

text \<open>
  \<^verbatim>\<open>parser.ParseFile(fset, filePath, nil, 0)\<close> reads the file and parses it: a
  collaborator, from the files and a path to an error text or a tree. The test command
  is the field \<^verbatim>\<open>runTests\<close> of the runner: it sees the files, may change them, and
  returns an error or nil.
\<close>

type_synonym parser = "(string \<rightharpoonup> string) \<Rightarrow> string \<Rightarrow> string + node"

subsection \<open>mutation.go\<close>

datatype MutationType =
  MutationOperatorReplace
| MutationConditionNegate
| MutationBoundaryChange
| MutationStatementDelete

fun MutationType_String :: "MutationType \<Rightarrow> string" where
  "MutationType_String MutationOperatorReplace = ''operator_replacement''"
| "MutationType_String MutationConditionNegate = ''condition_negation''"
| "MutationType_String MutationBoundaryChange = ''boundary_change''"
| "MutationType_String MutationStatementDelete = ''statement_deletion''"

text \<open>The field \<^verbatim>\<open>FilePath\<close> of \<^verbatim>\<open>Mutant\<close> is \<open>Mutant_FilePath\<close> here.\<close>

record Mutant =
  Mutant_FilePath :: string
  Line :: int
  Type :: MutationType
  Original :: string
  Mutated :: string
  Killed :: bool
  Equivalent :: bool
  KillingTest :: string

record MutationRunner =
  runTests :: "string list \<Rightarrow> (string \<rightharpoonup> string) \<Rightarrow> error option \<times> (string \<rightharpoonup> string)"

definition MutationRunner_Name :: string where
  "MutationRunner_Name = ''mutation_testing''"

definition MutationRunner_Applicable :: "InspectInput \<Rightarrow> bool" where
  "MutationRunner_Applicable input =
     (WorkType input = ''code'' \<and> length (ModifiedPackages input) > 0)"

definition operatorReplacement :: "token \<Rightarrow> token option" where
  "operatorReplacement op =
     map_of
       [(ADD, SUB), (SUB, ADD),
        (MUL, QUO), (QUO, MUL),
        (EQL, NEQ), (NEQ, EQL),
        (LSS, GEQ), (GEQ, LSS),
        (GTR, LEQ), (LEQ, GTR),
        (LAND, LOR), (LOR, LAND)] op"

definition boundaryChange :: "token \<Rightarrow> token option" where
  "boundaryChange op =
     map_of
       [(LSS, LEQ), (LEQ, LSS),
        (GTR, GEQ), (GEQ, GTR)] op"

text \<open>The function literal that \<^verbatim>\<open>findMutationSites\<close> passes to \<^verbatim>\<open>ast.Inspect\<close>.\<close>

fun visit :: "string \<Rightarrow> node \<Rightarrow> Mutant list \<Rightarrow> Mutant list" where
  "visit filePath (BinaryExpr l op x y) mutants =
     (let mutants1 =
        (case operatorReplacement op of
           Some replacement \<Rightarrow>
             mutants @
               [\<lparr>Mutant_FilePath = filePath, Line = l, Type = MutationOperatorReplace,
                 Original = token_String op, Mutated = token_String replacement,
                 Killed = False, Equivalent = False, KillingTest = []\<rparr>]
         | None \<Rightarrow> mutants)
      in case boundaryChange op of
           Some boundary \<Rightarrow>
             mutants1 @
               [\<lparr>Mutant_FilePath = filePath, Line = l, Type = MutationBoundaryChange,
                 Original = token_String op, Mutated = token_String boundary,
                 Killed = False, Equivalent = False, KillingTest = []\<rparr>]
         | None \<Rightarrow> mutants1)"
| "visit filePath (UnaryExpr l op x) mutants =
     (if op = NOT then
        mutants @
          [\<lparr>Mutant_FilePath = filePath, Line = l, Type = MutationConditionNegate,
            Original = ''!expr'', Mutated = ''expr'',
            Killed = False, Equivalent = False, KillingTest = []\<rparr>]
      else mutants)"
| "visit filePath (OtherNode cs) mutants = mutants"

definition findMutationSites :: "parser \<Rightarrow> world \<Rightarrow> string \<Rightarrow> error + Mutant list" where
  "findMutationSites ParseFile w filePath =
     (case ParseFile (files w) filePath of
        Inl err \<Rightarrow> Inl (Errorf (''parse '' @ filePath @ '': '' @ err))
      | Inr f \<Rightarrow> Inr (Inspect (visit filePath) f []))"

definition applyAndTest ::
  "MutationRunner \<Rightarrow> string \<Rightarrow> int \<Rightarrow> string \<Rightarrow> string \<Rightarrow> string list \<Rightarrow> world \<Rightarrow> bool \<times> world" where
  "applyAndTest m filePath line original mutated packages w =
     (case ReadFile w filePath of
        Inl err \<Rightarrow> (False, w)
      | Inr content \<Rightarrow>
          let lines = Split_newline content
          in if line < 1 \<or> line > int (length lines) then (False, w)
             else
               let originalLine = lines ! nat (line - 1);
                   mutatedLine = Replace_first originalLine original mutated
               in if mutatedLine = originalLine then (False, w)
                  else
                    case WriteFile filePath
                           (Join_newline (lines[nat (line - 1) := mutatedLine])) w of
                      (Some err, w1) \<Rightarrow> (False, w1)
                    | (None, w1) \<Rightarrow>
                        (case runTests m packages (files w1) of
                           (r, fs2) \<Rightarrow>
                             let killed = (r \<noteq> None)
                             in case WriteFile filePath content (w1\<lparr>files := fs2\<rparr>) of
                                  (_, w3) \<Rightarrow> (killed, w3)))"

text \<open>The three loops of \<^verbatim>\<open>Run\<close>, and the skip result it returns in three places.\<close>

fun collect_mutants :: "parser \<Rightarrow> world \<Rightarrow> string list \<Rightarrow> Mutant list \<Rightarrow> Mutant list" where
  "collect_mutants ParseFile w [] allMutants = allMutants"
| "collect_mutants ParseFile w (file # rest) allMutants =
     (if \<not> HasSuffix file ''.go'' \<or> HasSuffix file ''_test.go''
      then collect_mutants ParseFile w rest allMutants
      else
        case findMutationSites ParseFile w file of
          Inl err \<Rightarrow> collect_mutants ParseFile w rest allMutants
        | Inr mutants \<Rightarrow> collect_mutants ParseFile w rest (allMutants @ mutants))"

fun apply_all :: "MutationRunner \<Rightarrow> string list \<Rightarrow> Mutant list \<Rightarrow> world \<Rightarrow> Mutant list \<times> world" where
  "apply_all m packages [] w = ([], w)"
| "apply_all m packages (mut # rest) w =
     (case applyAndTest m (Mutant_FilePath mut) (Line mut) (Original mut) (Mutated mut)
             packages w of
        (k, w1) \<Rightarrow>
          (case apply_all m packages rest w1 of
             (rest1, w2) \<Rightarrow> (mut\<lparr>Killed := k\<rparr> # rest1, w2)))"

fun tally :: "Mutant list \<Rightarrow> nat \<times> nat \<times> Evidence list \<Rightarrow> nat \<times> nat \<times> Evidence list" where
  "tally [] acc = acc"
| "tally (mut # rest) (killed_count, total_count, evidence) =
     (if Equivalent mut then tally rest (killed_count, total_count, evidence)
      else if Killed mut then tally rest (Suc killed_count, Suc total_count, evidence)
      else tally rest
             (killed_count, Suc total_count,
              evidence @
                [\<lparr>CriterionID = [], FilePath = Mutant_FilePath mut,
                  Detail = ''surviving mutant at line '' @ Itoa (Line mut) @ '': '' @
                    Original mut @ [CHR '' '', CHR 0xE2, CHR 0x86, CHR 0x92, CHR '' ''] @
                    Mutated mut @ '' ('' @ MutationType_String (Type mut) @ '')''\<rparr>]))"

definition skip_result :: "string \<Rightarrow> TechniqueResult" where
  "skip_result name =
     \<lparr>Name = name, Score = Fin 0, Verdict = VerdictSkip, Evidence = [], Deterministic = True\<rparr>"

text \<open>The end of \<^verbatim>\<open>Run\<close>, from the tally of the tested mutants on.\<close>

definition score_mutants :: "Mutant list \<Rightarrow> TechniqueResult" where
  "score_mutants allMutants =
     (case tally allMutants (0, 0, []) of
        (killed_count, total_count, evidence) \<Rightarrow>
          if total_count = 0 then skip_result MutationRunner_Name
          else
            let score = fdiv (float64_of_nat killed_count) (float64_of_nat total_count)
            in \<lparr>Name = MutationRunner_Name, Score = score,
                Verdict = (if flt score (Fin 1) then VerdictFail else VerdictPass),
                Evidence = evidence, Deterministic = True\<rparr>)"

definition MutationRunner_Run ::
  "parser \<Rightarrow> MutationRunner \<Rightarrow> InspectInput \<Rightarrow> world \<Rightarrow> (error + TechniqueResult) \<times> world" where
  "MutationRunner_Run ParseFile m input w =
     (if \<not> MutationRunner_Applicable input then (Inr (skip_result MutationRunner_Name), w)
      else
        let allMutants = collect_mutants ParseFile w (ModifiedFiles input) []
        in if length allMutants = 0 then (Inr (skip_result MutationRunner_Name), w)
           else
             case apply_all m (ModifiedPackages input) allMutants w of
               (tested, w1) \<Rightarrow> (Inr (score_mutants tested), w1))"

subsection \<open>The translation validator\<close>

text \<open>
  The three collaborators of the validator are fields of the struct; they are modelled
  by their answers. The field \<^verbatim>\<open>CriterionID\<close> of \<^verbatim>\<open>MechanicalCheck\<close> is
  \<open>Check_CriterionID\<close> here.
\<close>

record TranslationValidator =
  fileExists :: "string \<Rightarrow> bool"
  buildCheck :: "string list \<Rightarrow> error option"
  testCheck :: "string list \<Rightarrow> error option"

record MechanicalCheck =
  Check_CriterionID :: string
  Description :: string
  Check :: "InspectInput \<Rightarrow> bool"

definition TranslationValidator_Name :: string where
  "TranslationValidator_Name = ''translation_validation''"

definition TranslationValidator_Applicable :: "InspectInput \<Rightarrow> bool" where
  "TranslationValidator_Applicable input =
     (length (PRDCriteria input) > 0 \<or> length (UCCriteria input) > 0)"

text \<open>
  Each file check captures the path of its own iteration (the per-iteration loop
  variable of Go 1.22, which the tests of the package rely on).
\<close>

definition buildChecks :: "TranslationValidator \<Rightarrow> InspectInput \<Rightarrow> MechanicalCheck list" where
  "buildChecks t input =
     map (\<lambda>f. \<lparr>Check_CriterionID = ''file_exists'',
               Description = ''file '' @ f @ '' exists'',
               Check = (\<lambda>_. fileExists t f)\<rparr>) (ModifiedFiles input)
     @ (if length (ModifiedPackages input) > 0 then
          [\<lparr>Check_CriterionID = ''compilation'',
            Description = ''modified packages compile'',
            Check = (\<lambda>in'. buildCheck t (ModifiedPackages in') = None)\<rparr>]
        else [])
     @ (if length (ModifiedPackages input) > 0 then
          [\<lparr>Check_CriterionID = ''tests_pass'',
            Description = ''tests pass in modified packages'',
            Check = (\<lambda>in'. testCheck t (ModifiedPackages in') = None)\<rparr>]
        else [])"

fun run_checks ::
  "InspectInput \<Rightarrow> MechanicalCheck list \<Rightarrow> nat \<times> Evidence list \<Rightarrow> nat \<times> Evidence list" where
  "run_checks input [] acc = acc"
| "run_checks input (mc # rest) (passed, evidence) =
     (if Check mc input then
        run_checks input rest
          (Suc passed,
           evidence @
             [\<lparr>CriterionID = Check_CriterionID mc, FilePath = [],
               Detail = ''passed: '' @ Description mc\<rparr>])
      else
        run_checks input rest
          (passed,
           evidence @
             [\<lparr>CriterionID = Check_CriterionID mc, FilePath = [],
               Detail = ''failed: '' @ Description mc\<rparr>]))"

definition TranslationValidator_Run ::
  "TranslationValidator \<Rightarrow> InspectInput \<Rightarrow> error + TechniqueResult" where
  "TranslationValidator_Run t input =
     (if \<not> TranslationValidator_Applicable input
      then Inr (skip_result TranslationValidator_Name)
      else
        let checks = buildChecks t input
        in if length checks = 0 then Inr (skip_result TranslationValidator_Name)
           else
             case run_checks input checks (0, []) of
               (passed, evidence) \<Rightarrow>
                 Inr \<lparr>Name = TranslationValidator_Name,
                      Score = fdiv (float64_of_nat passed) (float64_of_nat (length checks)),
                      Verdict = (if passed < length checks then VerdictFail else VerdictPass),
                      Evidence = evidence, Deterministic = True\<rparr>)"

subsection \<open>Notions of the specification\<close>

text \<open>
  The nodes of a tree in the order of the traversal; the record of a freshly
  discovered mutant; a world in which every write to come succeeds; a modified file
  that is a candidate for mutation.
\<close>

fun preorder :: "node \<Rightarrow> node list" where
  "preorder (BinaryExpr l op x y) = BinaryExpr l op x y # preorder x @ preorder y"
| "preorder (UnaryExpr l op x) = UnaryExpr l op x # preorder x"
| "preorder (OtherNode cs) = OtherNode cs # concat (map preorder cs)"

definition mutant_of :: "string \<Rightarrow> int \<Rightarrow> MutationType \<Rightarrow> string \<Rightarrow> string \<Rightarrow> Mutant" where
  "mutant_of file l ty orig mut =
     \<lparr>Mutant_FilePath = file, Line = l, Type = ty, Original = orig, Mutated = mut,
      Killed = False, Equivalent = False, KillingTest = []\<rparr>"

definition all_writes_succeed :: "world \<Rightarrow> bool" where
  "all_writes_succeed w = list_all (\<lambda>oc. oc = WriteOk) (outcomes w)"

definition qualifying :: "string \<Rightarrow> bool" where
  "qualifying f = (HasSuffix f ''.go'' \<and> \<not> HasSuffix f ''_test.go'')"

section \<open>Concrete inputs\<close>

text \<open>
  Result lists in the style of \<^verbatim>\<open>composite_test.go\<close>, for the default configuration:
  two techniques of the default table with one technique the table does not name and
  one skipped result; two results with the score \<^verbatim>\<open>0.80\<close>; two results with low
  scores.
\<close>

definition scenario_A :: "TechniqueResult list" where
  "scenario_A =
     [\<lparr>Name = ''translation_validation'', Score = round64 (90 / 100), Verdict = VerdictPass,
       Evidence = [], Deterministic = False\<rparr>,
      \<lparr>Name = ''mutation_testing'', Score = round64 (85 / 100), Verdict = VerdictPass,
       Evidence = [], Deterministic = True\<rparr>,
      \<lparr>Name = ''unknown_technique'', Score = round64 (80 / 100), Verdict = VerdictPass,
       Evidence = [], Deterministic = True\<rparr>,
      \<lparr>Name = ''differential_testing'', Score = Fin 0, Verdict = VerdictSkip,
       Evidence = [], Deterministic = True\<rparr>]"

definition scenario_mend :: "TechniqueResult list" where
  "scenario_mend =
     [\<lparr>Name = ''translation_validation'', Score = round64 (80 / 100), Verdict = VerdictPass,
       Evidence = [], Deterministic = False\<rparr>,
      \<lparr>Name = ''mutation_testing'', Score = round64 (80 / 100), Verdict = VerdictPass,
       Evidence = [], Deterministic = True\<rparr>]"

definition scenario_review :: "TechniqueResult list" where
  "scenario_review =
     [\<lparr>Name = ''translation_validation'', Score = round64 (20 / 100), Verdict = VerdictFail,
       Evidence = [], Deterministic = False\<rparr>,
      \<lparr>Name = ''mutation_testing'', Score = round64 (30 / 100), Verdict = VerdictFail,
       Evidence = [], Deterministic = True\<rparr>]"

text \<open>
  A configuration whose two weights are both \<open>0\<close>, and two passing results with the
  score \<open>1\<close> under the two names it weighs.
\<close>

definition zero_config :: ScorerConfig where
  "zero_config =
     \<lparr>Weights = [''translation_validation'' \<mapsto> Fin 0, ''mutation_testing'' \<mapsto> Fin 0],
      AcceptThreshold = round64 (80 / 100), MendThreshold = round64 (50 / 100),
      MinDeterministic = round64 (50 / 100)\<rparr>"

definition two_passes :: "TechniqueResult list" where
  "two_passes =
     [\<lparr>Name = ''translation_validation'', Score = Fin 1, Verdict = VerdictPass,
       Evidence = [], Deterministic = True\<rparr>,
      \<lparr>Name = ''mutation_testing'', Score = Fin 1, Verdict = VerdictPass,
       Evidence = [], Deterministic = True\<rparr>]"

text \<open>A configuration with one weight above \<open>1\<close> and one below \<open>0\<close>.\<close>

definition bad_config :: ScorerConfig where
  "bad_config =
     \<lparr>Weights = [''translation_validation'' \<mapsto> Fin (3 / 2), ''mutation_testing'' \<mapsto> Fin (- 1)],
      AcceptThreshold = round64 (80 / 100), MendThreshold = round64 (50 / 100),
      MinDeterministic = round64 (50 / 100)\<rparr>"

text \<open>
  A configuration with the weights \<open>1\<close> and \<open>-0.5\<close>, and two passing results of which
  the one with the weight \<open>1\<close> is deterministic.
\<close>

definition negative_config :: ScorerConfig where
  "negative_config =
     \<lparr>Weights = [''mutation_testing'' \<mapsto> Fin 1, ''translation_validation'' \<mapsto> Fin (- 1 / 2)],
      AcceptThreshold = round64 (80 / 100), MendThreshold = round64 (50 / 100),
      MinDeterministic = round64 (50 / 100)\<rparr>"

definition mixed_results :: "TechniqueResult list" where
  "mixed_results =
     [\<lparr>Name = ''mutation_testing'', Score = Fin 1, Verdict = VerdictPass,
       Evidence = [], Deterministic = True\<rparr>,
      \<lparr>Name = ''translation_validation'', Score = Fin 1, Verdict = VerdictPass,
       Evidence = [], Deterministic = False\<rparr>]"

text \<open>
  A tree in the shape of \<^verbatim>\<open>if a < b { return a + b }; return a - !c\<close>, a parser that
  answers with it, and the world that holds its source.
\<close>

definition tree_C :: node where
  "tree_C =
     OtherNode
       [OtherNode
          [BinaryExpr 4 LSS (OtherNode []) (OtherNode []),
           OtherNode [BinaryExpr 5 ADD (OtherNode []) (OtherNode [])]],
        OtherNode [BinaryExpr 7 SUB (OtherNode []) (UnaryExpr 7 NOT (OtherNode []))]]"

definition parser_C :: parser where
  "parser_C fs path =
     (case fs path of
        None \<Rightarrow> Inl ''no such file''
      | Some src \<Rightarrow> if src = ''package example'' then Inr tree_C else Inl ''syntax error'')"

definition world_C :: world where
  "world_C = \<lparr>files = [''example.go'' \<mapsto> ''package example''], outcomes = []\<rparr>"

text \<open>
  One source file of a single line, with both writes of a cycle succeeding
  (\<open>world_T\<close>) and with the restoring write failing (\<open>world_F\<close>); a test command that
  fails and overwrites the file, one that passes; a parser for the line; an input
  naming the file.
\<close>

definition world_T :: world where
  "world_T = \<lparr>files = [''a.go'' \<mapsto> ''x := a + b''], outcomes = [WriteOk, WriteOk]\<rparr>"

definition runner_fail :: MutationRunner where
  "runner_fail = \<lparr>runTests = (\<lambda>pk fs. (Some (Errorf ''tests failed''), fs(''a.go'' \<mapsto> ''scribble'')))\<rparr>"

definition runner_pass :: MutationRunner where
  "runner_pass = \<lparr>runTests = (\<lambda>pk fs. (None, fs))\<rparr>"

definition world_F :: world where
  "world_F =
     \<lparr>files = [''a.go'' \<mapsto> ''x := a + b''], outcomes = [WriteOk, WriteErr (Some ''x := a - b'')]\<rparr>"

definition tree_T :: node where
  "tree_T = OtherNode [BinaryExpr 1 ADD (OtherNode []) (OtherNode [])]"

definition parser_T :: parser where
  "parser_T fs path =
     (case fs path of
        None \<Rightarrow> Inl ''no such file''
      | Some src \<Rightarrow> if src = ''x := a + b'' then Inr tree_T else Inl ''syntax error'')"

definition input_T :: InspectInput where
  "input_T =
     \<lparr>CrumbID = ''test-1'', WorkType = ''code'', ModifiedFiles = [''a.go''],
      ModifiedPackages = [''./...''], Diff = [], PRDCriteria = [], UCCriteria = [],
      FixtureDir = [], PRDRequirements = Map.empty\<rparr>"

text \<open>Inputs on which a technique has nothing to evaluate, and the input of Scenario D.\<close>

definition input_docs :: InspectInput where
  "input_docs =
     \<lparr>CrumbID = ''test-1'', WorkType = ''docs'', ModifiedFiles = [''README.md''],
      ModifiedPackages = [''./pkg/foo''], Diff = [], PRDCriteria = [], UCCriteria = [],
      FixtureDir = [], PRDRequirements = Map.empty\<rparr>"

definition input_tests_only :: InspectInput where
  "input_tests_only =
     \<lparr>CrumbID = ''test-1'', WorkType = ''code'', ModifiedFiles = [''foo_test.go''],
      ModifiedPackages = [''./pkg/foo''], Diff = [], PRDCriteria = [], UCCriteria = [],
      FixtureDir = [], PRDRequirements = Map.empty\<rparr>"

definition input_no_checks :: InspectInput where
  "input_no_checks =
     \<lparr>CrumbID = ''test-1'', WorkType = ''docs'', ModifiedFiles = [],
      ModifiedPackages = [], Diff = [], PRDCriteria = [''Files exist''], UCCriteria = [],
      FixtureDir = [], PRDRequirements = Map.empty\<rparr>"

definition tested_equivalent :: "Mutant list" where
  "tested_equivalent =
     [\<lparr>Mutant_FilePath = ''a.go'', Line = 1, Type = MutationOperatorReplace,
       Original = ''+'', Mutated = ''-'', Killed = False, Equivalent = True,
       KillingTest = []\<rparr>]"

definition parser_none :: parser where
  "parser_none fs path = Inl ''syntax error''"

definition validator_T :: TranslationValidator where
  "validator_T =
     \<lparr>fileExists = (\<lambda>path. path = ''exists.go''),
      buildCheck = (\<lambda>pk. None),
      testCheck = (\<lambda>pk. None)\<rparr>"

definition world_empty :: world where
  "world_empty = \<lparr>files = Map.empty, outcomes = []\<rparr>"

definition input_D :: InspectInput where
  "input_D =
     \<lparr>CrumbID = ''test-1'', WorkType = [], ModifiedFiles = [''exists.go'', ''missing.go''],
      ModifiedPackages = [], Diff = [], PRDCriteria = [''Files present''], UCCriteria = [],
      FixtureDir = [], PRDRequirements = Map.empty\<rparr>"

section \<open>Properties of float64\<close>

text \<open>The equations that evaluate \<open>round64\<close> on a numeral.\<close>

lemmas round64_eval =
  round64_def ilog2_def pow2_def round_half_even_def bit_length.simps Let_def

subsection \<open>Powers of two and the binary exponent\<close>

lemma pow2_powi: "pow2 e = 2 powi e"
  by (simp add: pow2_def power_int_def inverse_eq_divide power_one_over)

lemma pow2_pos [simp]: "0 < pow2 e"
  by (simp add: pow2_powi)

lemma pow2_add: "pow2 (a + b) = pow2 a * pow2 b"
  by (simp add: pow2_powi power_int_add)

lemma pow2_mono: "a \<le> b \<Longrightarrow> pow2 a \<le> pow2 b"
  by (simp add: pow2_powi power_int_increasing)

lemma pow2_strict_mono: "a < b \<Longrightarrow> pow2 a < pow2 b"
  by (simp add: pow2_powi power_int_strict_increasing)

lemma pow2_less_imp: "pow2 a < pow2 b \<Longrightarrow> a < b"
  by (metis not_less pow2_mono)

lemma pow2_nat: "pow2 (int n) = 2 ^ n"
  by (simp add: pow2_def)

lemma pow2_neg_nat: "pow2 (- int n) = 1 / 2 ^ n"
  by (simp add: pow2_powi power_int_minus inverse_eq_divide)

lemma bit_length_bounds:
  "0 < n \<Longrightarrow> 2 ^ (bit_length n - 1) \<le> n \<and> n < 2 ^ bit_length n"
proof (induction n rule: bit_length.induct)
  case (1 n)
  show ?case
  proof (cases "n div 2 = 0")
    case True
    with 1 have "n = 1" by (cases n) auto
    then show ?thesis by (simp add: bit_length.simps)
  next
    case False
    then have p: "0 < n div 2" by simp
    from 1 have n0: "n \<noteq> 0" by simp
    from "1.IH" [OF n0 p]
    have ih: "2 ^ (bit_length (n div 2) - 1) \<le> n div 2" "n div 2 < 2 ^ bit_length (n div 2)"
      by simp_all
    have b: "bit_length n = Suc (bit_length (n div 2))"
      using n0 by (subst bit_length.simps) simp
    have bp: "0 < bit_length (n div 2)"
      using p by (subst bit_length.simps) simp
    then obtain k where k: "bit_length (n div 2) = Suc k"
      by (cases "bit_length (n div 2)") auto
    from ih k have "2 ^ k \<le> n div 2" "n div 2 < 2 ^ Suc k" by simp_all
    then have "2 ^ Suc k \<le> n" "n < 2 ^ Suc (Suc k)" by auto
    then show ?thesis by (simp add: b k)
  qed
qed

lemma ilog2_bounds:
  assumes "0 < x"
  shows "pow2 (ilog2 x) \<le> x \<and> x < pow2 (ilog2 x + 1)"
proof (cases "1 \<le> x")
  case True
  let ?n = "nat \<lfloor>x\<rfloor>"
  have n: "0 < ?n" using True by simp
  from bit_length_bounds [OF n]
  have b: "2 ^ (bit_length ?n - 1) \<le> ?n" "?n < 2 ^ bit_length ?n" by simp_all
  have bp: "0 < bit_length ?n" using n by (subst bit_length.simps) simp
  have k: "ilog2 x = int (bit_length ?n - 1)"
    using True bp by (simp add: ilog2_def)
  have k1: "ilog2 x + 1 = int (bit_length ?n)"
    using True bp by (simp add: ilog2_def)
  have "real (2 ^ (bit_length ?n - 1)) \<le> real ?n" using b(1) by (rule of_nat_mono)
  also have "real ?n \<le> x" using True by simp
  finally have lo: "pow2 (ilog2 x) \<le> x" by (simp add: k pow2_nat)
  have "x < real ?n + 1" using True by (simp; linarith?)
  also have "real ?n + 1 \<le> real (2 ^ bit_length ?n)"
    using b(2) by (metis Suc_leI of_nat_Suc of_nat_mono add.commute plus_1_eq_Suc)
  finally have hi: "x < pow2 (ilog2 x + 1)" by (simp add: k1 pow2_nat)
  from lo hi show ?thesis by blast
next
  case False
  then have x1: "x < 1" by simp
  let ?n = "nat (\<lceil>1 / x\<rceil> - 1)"
  have inv: "1 < 1 / x" using assms x1 by simp
  then have c2: "2 \<le> \<lceil>1 / x\<rceil>" by linarith
  then have n: "0 < ?n" by simp
  from bit_length_bounds [OF n]
  have b: "2 ^ (bit_length ?n - 1) \<le> ?n" "?n < 2 ^ bit_length ?n" by simp_all
  have bp: "0 < bit_length ?n" using n by (subst bit_length.simps) simp
  let ?b = "bit_length ?n"
  have k: "ilog2 x = - int ?b" using False by (simp add: ilog2_def)
  have nlt: "real ?n < 1 / x"
    using c2 by (simp; linarith?)
  have nge: "1 / x \<le> real ?n + 1"
    using c2 by (simp; linarith?)
  have "real ?n + 1 \<le> real (2 ^ ?b)"
    using b(2) by (metis Suc_leI of_nat_Suc of_nat_mono add.commute plus_1_eq_Suc)
  with nge have "1 / x \<le> 2 ^ ?b" by simp
  then have lo: "pow2 (ilog2 x) \<le> x"
    using assms by (simp add: k pow2_neg_nat field_simps)
  have "(2::real) ^ (?b - 1) \<le> real ?n"
    using of_nat_mono [OF b(1), where 'a = real] by simp
  then have "2 ^ (?b - 1) < 1 / x" using nlt by (rule order_le_less_trans)
  then have "x < 1 / 2 ^ (?b - 1)"
    using assms by (simp add: field_simps)
  moreover have "ilog2 x + 1 = - int (?b - 1)"
    using bp by (simp add: k)
  then have "pow2 (ilog2 x + 1) = 1 / 2 ^ (?b - 1)"
    by (simp only: pow2_neg_nat)
  ultimately have hi: "x < pow2 (ilog2 x + 1)" by simp
  from lo hi show ?thesis by blast
qed

lemma ilog2_unique:
  assumes "0 < x" "pow2 k \<le> x" "x < pow2 (k + 1)"
  shows "ilog2 x = k"
proof -
  from ilog2_bounds [OF assms(1)]
  have b: "pow2 (ilog2 x) \<le> x" "x < pow2 (ilog2 x + 1)" by simp_all
  from assms(2) b(2) have "pow2 k < pow2 (ilog2 x + 1)" by simp
  then have "k < ilog2 x + 1" by (rule pow2_less_imp)
  moreover from b(1) assms(3) have "pow2 (ilog2 x) < pow2 (k + 1)" by simp
  then have "ilog2 x < k + 1" by (rule pow2_less_imp)
  ultimately show ?thesis by simp
qed

lemma ilog2_mono:
  assumes "0 < x" "x \<le> y"
  shows "ilog2 x \<le> ilog2 y"
proof -
  have y: "0 < y" using assms by simp
  from ilog2_bounds [OF assms(1)] ilog2_bounds [OF y] assms(2)
  have "pow2 (ilog2 x) < pow2 (ilog2 y + 1)" by simp
  then have "ilog2 x < ilog2 y + 1" by (rule pow2_less_imp)
  then show ?thesis by simp
qed

subsection \<open>Rounding is monotone and leaves float64 values unchanged\<close>

lemma round_half_even_of_int [simp]: "round_half_even (of_int n) = n"
  by (simp add: round_half_even_def)

lemma round_half_even_mono:
  assumes "y \<le> z"
  shows "round_half_even y \<le> round_half_even z"
proof (cases "\<lfloor>y\<rfloor> = \<lfloor>z\<rfloor>")
  case True
  then show ?thesis using assms
    by (auto simp: round_half_even_def Let_def)
next
  case False
  with assms have "\<lfloor>y\<rfloor> < \<lfloor>z\<rfloor>" by (simp add: floor_mono order_less_le)
  then have "\<lfloor>y\<rfloor> + 1 \<le> \<lfloor>z\<rfloor>" by simp
  moreover have "round_half_even y \<le> \<lfloor>y\<rfloor> + 1"
    by (simp add: round_half_even_def Let_def)
  moreover have "\<lfloor>z\<rfloor> \<le> round_half_even z"
    by (simp add: round_half_even_def Let_def)
  ultimately show ?thesis by linarith
qed

lemma pow2_nonneg [simp]: "0 \<le> pow2 e"
  by (rule less_imp_le) simp

lemma pow2_nonzero [simp]: "pow2 e \<noteq> 0"
  by (simp add: pow2_powi)

lemma pow2_diff: "pow2 a / pow2 b = pow2 (a - b)"
proof -
  have "pow2 a = pow2 (a - b) * pow2 b" by (simp flip: pow2_add)
  then show ?thesis by simp
qed

lemma round_half_even_pow2: "0 \<le> e \<Longrightarrow> of_int (round_half_even (pow2 e)) = pow2 e"
proof -
  assume "0 \<le> e"
  then have "pow2 e = of_int (2 ^ nat e)" by (simp add: pow2_def)
  then show ?thesis by (simp only: round_half_even_of_int)
qed

lemma round_half_even_zero [simp]: "round_half_even 0 = 0"
  using round_half_even_of_int [of 0] by simp

lemma round64_rounded:
  "round64 x =
     (if x = 0 then Fin 0
      else if pow2 1024 \<le> \<bar>rounded x\<bar> then (if 0 < x then PosInf else NegInf)
      else Fin (rounded x))"
  by (simp add: round64_def rounded_def quantum_def Let_def)

lemma quantum_pos [simp]: "0 < quantum x"
  by (simp add: quantum_def)

lemma quantum_nonneg [simp]: "0 \<le> quantum x"
  by (simp add: quantum_def)

lemma quantum_nonzero [simp]: "quantum x \<noteq> 0"
  by (simp add: quantum_def)

lemma rounded_zero [simp]: "rounded 0 = 0"
  by (simp add: rounded_def)

lemma rounded_nonneg: "0 \<le> x \<Longrightarrow> 0 \<le> rounded x"
proof -
  assume "0 \<le> x"
  then have "0 \<le> x / quantum x" by (intro divide_nonneg_pos) simp_all
  from round_half_even_mono [OF this] have "0 \<le> round_half_even (x / quantum x)"
    by simp
  then show ?thesis by (simp add: rounded_def)
qed

lemma rounded_upper:
  assumes "0 < x" and k: "k = max (ilog2 x) (- 1022)"
  shows "of_int (round_half_even (x / quantum x)) \<le> pow2 53" and "rounded x \<le> pow2 (k + 1)"
proof -
  have q: "quantum x = pow2 (k - 52)" using assms by (simp add: quantum_def)
  have "x < pow2 (ilog2 x + 1)" using ilog2_bounds [OF assms(1)] by simp
  also have "\<dots> \<le> pow2 (k + 1)" by (rule pow2_mono) (simp add: k)
  finally have "x / quantum x < pow2 (k + 1) / pow2 (k - 52)"
    unfolding q by (intro divide_strict_right_mono) simp_all
  then have "x / quantum x \<le> pow2 53" by (simp add: pow2_diff)
  from round_half_even_mono [OF this]
  have "(of_int (round_half_even (x / quantum x)) :: real) \<le> of_int (round_half_even (pow2 53))"
    by (simp only: of_int_le_iff)
  then show n: "of_int (round_half_even (x / quantum x)) \<le> pow2 53"
    by (simp add: round_half_even_pow2)
  have "rounded x \<le> pow2 53 * quantum x"
    unfolding rounded_def using n by (intro mult_right_mono) simp_all
  also have "\<dots> = pow2 (k + 1)"
    by (simp add: q add.commute flip: pow2_add)
  finally show "rounded x \<le> pow2 (k + 1)" .
qed

lemma rounded_lower:
  assumes "0 < x" and "- 1022 \<le> ilog2 x"
  shows "pow2 52 \<le> of_int (round_half_even (x / quantum x))" and "pow2 (ilog2 x) \<le> rounded x"
proof -
  have q: "quantum x = pow2 (ilog2 x - 52)" using assms by (simp add: quantum_def max_def)
  have "pow2 (ilog2 x) / pow2 (ilog2 x - 52) \<le> x / quantum x"
    unfolding q using ilog2_bounds [OF assms(1)] by (intro divide_right_mono) simp_all
  then have "pow2 52 \<le> x / quantum x" by (simp add: pow2_diff)
  from round_half_even_mono [OF this]
  have "(of_int (round_half_even (pow2 52)) :: real) \<le> of_int (round_half_even (x / quantum x))"
    by (simp only: of_int_le_iff)
  then show n: "pow2 52 \<le> of_int (round_half_even (x / quantum x))"
    by (simp add: round_half_even_pow2)
  have "pow2 (ilog2 x) = pow2 52 * quantum x"
    by (simp add: q flip: pow2_add)
  also have "\<dots> \<le> rounded x"
    unfolding rounded_def using n by (intro mult_right_mono) simp_all
  finally show "pow2 (ilog2 x) \<le> rounded x" .
qed

lemma rounded_mono:
  assumes "0 < x" "x \<le> y"
  shows "rounded x \<le> rounded y"
proof -
  have y: "0 < y" using assms by simp
  let ?kx = "max (ilog2 x) (- 1022)" and ?ky = "max (ilog2 y) (- 1022)"
  have le: "?kx \<le> ?ky" using ilog2_mono [OF assms] by simp
  show ?thesis
  proof (cases "?kx = ?ky")
    case True
    then have q: "quantum x = quantum y" using assms y by (simp add: quantum_def)
    have "x / quantum y \<le> y / quantum y"
      using assms by (intro divide_right_mono) simp_all
    from round_half_even_mono [OF this] show ?thesis
      unfolding rounded_def q by (intro mult_right_mono) simp_all
  next
    case False
    with le have lt: "?kx < ?ky" by linarith
    then have ky: "?ky = ilog2 y" "- 1022 \<le> ilog2 y" by linarith+
    have "rounded x \<le> pow2 (?kx + 1)" by (rule rounded_upper [OF assms(1) refl])
    also have "\<dots> \<le> pow2 (ilog2 y)" using lt ky by (intro pow2_mono) linarith
    also have "\<dots> \<le> rounded y" by (rule rounded_lower [OF y ky(2)])
    finally show ?thesis .
  qed
qed

lemma rounded_idem:
  assumes "0 < x"
  shows "rounded (rounded x) = rounded x"
proof (cases "rounded x = 0")
  case True
  then show ?thesis by simp
next
  case False
  define k where "k = max (ilog2 x) (- 1022)"
  define n where "n = round_half_even (x / quantum x)"
  let ?r = "rounded x"
  have q: "quantum x = pow2 (k - 52)" using assms by (simp add: quantum_def k_def)
  have r: "?r = of_int n * pow2 (k - 52)" by (simp add: rounded_def n_def q)
  have rpos: "0 < ?r" using rounded_nonneg [of x] assms False by simp
  have k1022: "- 1022 \<le> k" by (simp add: k_def)
  have nle: "of_int n \<le> pow2 53" unfolding n_def by (rule rounded_upper(1) [OF assms refl])
  show ?thesis
  proof (cases "of_int n = pow2 53")
    case True
    then have rp: "?r = pow2 (k + 1)" by (simp add: r add.commute flip: pow2_add)
    have "ilog2 ?r = k + 1"
      by (rule ilog2_unique) (simp_all add: rp pow2_strict_mono)
    then have q': "quantum ?r = pow2 (k - 51)"
      using rpos k1022 by (simp add: quantum_def)
    have "?r / quantum ?r = pow2 52" by (simp only: q') (simp add: rp pow2_diff)
    then have "rounded ?r = pow2 52 * quantum ?r"
      unfolding rounded_def [of ?r] by (simp add: round_half_even_pow2)
    also have "\<dots> = pow2 52 * pow2 (k - 51)" by (simp only: q')
    also have "\<dots> = ?r" by (simp add: rp add.commute flip: pow2_add)
    finally show ?thesis .
  next
    case False
    with nle have nlt: "of_int n < pow2 53" by simp
    then have "?r < pow2 53 * pow2 (k - 52)"
      unfolding r by (intro mult_strict_right_mono) simp_all
    then have rlt: "?r < pow2 (k + 1)" by (simp add: add.commute flip: pow2_add)
    have "max (ilog2 ?r) (- 1022) = k"
    proof (cases "- 1022 < k")
      case True
      then have kx: "k = ilog2 x" "- 1022 \<le> ilog2 x" by (simp_all add: k_def max_def split: if_splits)
      have "pow2 k \<le> ?r" unfolding kx(1) by (rule rounded_lower(2) [OF assms kx(2)])
      then have "ilog2 ?r = k" using rlt rpos by (intro ilog2_unique)
      then show ?thesis using k1022 by simp
    next
      case False
      with k1022 have k: "k = - 1022" by simp
      have "pow2 (ilog2 ?r) \<le> ?r" using ilog2_bounds [OF rpos] by simp
      with rlt have "pow2 (ilog2 ?r) < pow2 (k + 1)" by simp
      then have "ilog2 ?r < k + 1" by (rule pow2_less_imp)
      then show ?thesis by (simp add: k)
    qed
    then have q': "quantum ?r = pow2 (k - 52)" using rpos by (simp add: quantum_def)
    have "?r / quantum ?r = ?r / pow2 (k - 52)" by (simp only: q')
    also have "\<dots> = of_int n" by (simp add: r)
    finally have "rounded ?r = of_int n * quantum ?r"
      unfolding rounded_def [of ?r] by (simp only: round_half_even_of_int)
    also have "\<dots> = of_int n * pow2 (k - 52)" by (simp only: q')
    finally show ?thesis by (simp only: r)
  qed
qed

lemma round64_Fin_rounded:
  assumes "round64 x = Fin a"
  shows "a = rounded x" and "\<bar>rounded x\<bar> < pow2 1024"
  using assms by (auto simp: round64_rounded split: if_splits)

lemma round64_mono_fin:
  assumes "0 \<le> x" "x \<le> y" "round64 y = Fin b"
  shows "\<exists>a. round64 x = Fin a \<and> 0 \<le> a \<and> a \<le> b"
proof -
  have y: "0 \<le> y" using assms by simp
  have b: "b = rounded y" "\<bar>rounded y\<bar> < pow2 1024"
    using round64_Fin_rounded [OF assms(3)] by simp_all
  have le: "rounded x \<le> rounded y"
  proof (cases "x = 0")
    case True
    then show ?thesis using rounded_nonneg [OF y] by simp
  next
    case False
    with assms have "0 < x" by simp
    then show ?thesis using assms(2) by (rule rounded_mono)
  qed
  have nn: "0 \<le> rounded x" by (rule rounded_nonneg [OF assms(1)])
  have "\<bar>rounded x\<bar> < pow2 1024" using le nn b(2) by simp
  then have "round64 x = Fin (rounded x)"
    by (simp add: round64_rounded)
  with le nn b(1) show ?thesis by simp
qed

lemma round64_idem:
  assumes "0 \<le> x" "round64 x = Fin a"
  shows "finite64 a"
proof (cases "a = 0")
  case True
  then show ?thesis by (simp add: finite64_def round64_def)
next
  case False
  have a: "a = rounded x" "\<bar>rounded x\<bar> < pow2 1024"
    using round64_Fin_rounded [OF assms(2)] by simp_all
  with False assms have x: "0 < x" by (cases "x = 0") simp_all
  have "rounded a = a" unfolding a(1) by (rule rounded_idem [OF x])
  then show ?thesis using a False by (simp add: finite64_def round64_rounded)
qed

lemma round64_nonneg:
  assumes "0 \<le> x"
  shows "round64 x = PosInf \<or> (\<exists>a. round64 x = Fin a \<and> 0 \<le> a)"
  using assms rounded_nonneg [OF assms] by (auto simp: round64_rounded)

lemma finite64_zero [simp]: "finite64 0"
  by (simp add: finite64_def round64_def)

lemma round64_one: "round64 1 = Fin 1"
  by (simp add: round64_eval)

lemma fdiv_unit_interval:
  assumes "0 \<le> d" "d \<le> t" "0 < t"
  shows "\<exists>x. fdiv (Fin d) (Fin t) = Fin x \<and> 0 \<le> x \<and> x \<le> 1"
proof -
  have "0 \<le> d / t" "d / t \<le> 1" using assms by simp_all
  from round64_mono_fin [OF this round64_one] show ?thesis using assms by simp
qed


text \<open>
  The decimal constants of the package and of its tests (\<^verbatim>\<open>0.80\<close>, \<^verbatim>\<open>0.50\<close>, \<^verbatim>\<open>0.30\<close>,
  \<^verbatim>\<open>0.25\<close>, \<^verbatim>\<open>0.20\<close>, \<^verbatim>\<open>0.15\<close>, \<^verbatim>\<open>0.10\<close>, \<^verbatim>\<open>0.90\<close>, \<^verbatim>\<open>0.85\<close>) as \<^verbatim>\<open>float64\<close> values.
\<close>

lemma decimal_constants:
  "round64 (4 / 5) = Fin (3602879701896397 / 4503599627370496)"
  "round64 (1 / 2) = Fin (1 / 2)"
  "round64 (3 / 10) = Fin (5404319552844595 / 18014398509481984)"
  "round64 (1 / 4) = Fin (1 / 4)"
  "round64 (1 / 5) = Fin (3602879701896397 / 18014398509481984)"
  "round64 (3 / 20) = Fin (5404319552844595 / 36028797018963968)"
  "round64 (1 / 10) = Fin (3602879701896397 / 36028797018963968)"
  "round64 (9 / 10) = Fin (8106479329266893 / 9007199254740992)"
  "round64 (17 / 20) = Fin (7656119366529843 / 9007199254740992)"
  by (simp_all add: round64_eval)

section \<open>Properties of the composite scorer\<close>

subsection \<open>The loops are left folds over the non-skip results\<close>

lemma score_loop_folds:
  "score_loop s rs (a, b, n) =
     (foldl fadd a (map (\<lambda>r. fmul (Score r) (weightFor s (Name r))) (non_skip rs)),
      foldl fadd b (map (\<lambda>r. weightFor s (Name r)) (non_skip rs)),
      n + length (non_skip rs))"
  by (induction rs arbitrary: a b n) (simp_all add: non_skip_def Let_def)

lemma det_loop_folds:
  "det_loop s rs (a, b) =
     (foldl fadd a (map (\<lambda>r. weightFor s (Name r)) (filter Deterministic (non_skip rs))),
      foldl fadd b (map (\<lambda>r. weightFor s (Name r)) (non_skip rs)))"
  by (induction rs arbitrary: a b) (simp_all add: non_skip_def Let_def)

lemma fdiv_zero_not_finite: "fdiv x (Fin 0) \<in> {NaN, PosInf, NegInf}"
  by (cases x) simp_all

subsection \<open>The validity floor\<close>

text \<open>
  Claim C1. Whenever fewer than two results of the input list have a verdict other than
  skip (the empty list, a single result and an all-skip list included),
  \<^verbatim>\<open>Scorer.Score\<close> returns \<^verbatim>\<open>ValidScore = false\<close>, the action human review and the
  composite score zero, whatever the scores, names and configuration are.
\<close>

theorem Score_validity_floor:
  assumes "length (non_skip rs) < 2"
  shows "ValidScore (Scorer_Score s rs) = False
       \<and> Action (Scorer_Score s rs) = ActionHumanReview
       \<and> CompositeScore (Scorer_Score s rs) = Fin 0"
  using assms by (simp add: Scorer_Score_def score_loop_folds)

theorem Score_validity_floor_witness:
  "length (non_skip
      [\<lparr>Name = ''mutation_testing'', Score = Fin (1 / 2), Verdict = VerdictPass,
        Evidence = [], Deterministic = True\<rparr>,
       \<lparr>Name = ''differential_testing'', Score = Fin 0, Verdict = VerdictSkip,
        Evidence = [], Deterministic = True\<rparr>]) < 2
   \<and> ValidScore (Scorer_Score (NewScorer DefaultScorerConfig)
      [\<lparr>Name = ''mutation_testing'', Score = Fin (1 / 2), Verdict = VerdictPass,
        Evidence = [], Deterministic = True\<rparr>,
       \<lparr>Name = ''differential_testing'', Score = Fin 0, Verdict = VerdictSkip,
        Evidence = [], Deterministic = True\<rparr>]) = False
   \<and> Action (Scorer_Score (NewScorer DefaultScorerConfig)
      [\<lparr>Name = ''mutation_testing'', Score = Fin (1 / 2), Verdict = VerdictPass,
        Evidence = [], Deterministic = True\<rparr>,
       \<lparr>Name = ''differential_testing'', Score = Fin 0, Verdict = VerdictSkip,
        Evidence = [], Deterministic = True\<rparr>]) = ActionHumanReview
   \<and> CompositeScore (Scorer_Score (NewScorer DefaultScorerConfig)
      [\<lparr>Name = ''mutation_testing'', Score = Fin (1 / 2), Verdict = VerdictPass,
        Evidence = [], Deterministic = True\<rparr>,
       \<lparr>Name = ''differential_testing'', Score = Fin 0, Verdict = VerdictSkip,
        Evidence = [], Deterministic = True\<rparr>]) = Fin 0"
proof -
  have h: "length (non_skip
      [\<lparr>Name = ''mutation_testing'', Score = Fin (1 / 2), Verdict = VerdictPass,
        Evidence = [], Deterministic = True\<rparr>,
       \<lparr>Name = ''differential_testing'', Score = Fin 0, Verdict = VerdictSkip,
        Evidence = [], Deterministic = True\<rparr>]) < 2"
    by (simp add: non_skip_def)
  from Score_validity_floor [OF h, of "NewScorer DefaultScorerConfig"] h
  show ?thesis by blast
qed

subsection \<open>The composite formula and the routing\<close>

text \<open>
  Claim C2. With at least two non-skip results, \<^verbatim>\<open>Scorer.Score\<close> returns
  \<^verbatim>\<open>ValidScore = true\<close>; the composite score is the sum of score times weight divided
  by the sum of the weights, both over exactly the non-skip results in the order of the
  list, every product, sum and the quotient rounded as \<^verbatim>\<open>float64\<close> arithmetic rounds
  them, where the weight of a result is the configured weight of its name and the
  \<^verbatim>\<open>float64\<close> \<open>0.10\<close> for a name the weight map does not hold. The action is accept
  when the composite is at least the accept threshold, else mend when it is at least
  the mend threshold, else human review; NaN reaches no threshold.
\<close>

theorem Score_composite_formula:
  assumes "2 \<le> length (non_skip rs)"
  shows "ValidScore (Scorer_Score s rs)
       \<and> CompositeScore (Scorer_Score s rs) =
           fdiv
             (foldl fadd (Fin 0)
                (map (\<lambda>r. fmul (Score r)
                        (case Weights (config s) (Name r) of
                           Some w \<Rightarrow> w | None \<Rightarrow> round64 (10 / 100)))
                   (non_skip rs)))
             (foldl fadd (Fin 0)
                (map (\<lambda>r. case Weights (config s) (Name r) of
                             Some w \<Rightarrow> w | None \<Rightarrow> round64 (10 / 100))
                   (non_skip rs)))
       \<and> (CompositeScore (Scorer_Score s rs) = Fin x
            \<and> AcceptThreshold (config s) = Fin a \<and> a \<le> x \<longrightarrow>
          Action (Scorer_Score s rs) = ActionAccept)
       \<and> (CompositeScore (Scorer_Score s rs) = Fin x
            \<and> AcceptThreshold (config s) = Fin a \<and> MendThreshold (config s) = Fin m
            \<and> x < a \<and> m \<le> x \<longrightarrow>
          Action (Scorer_Score s rs) = ActionMend)
       \<and> (CompositeScore (Scorer_Score s rs) = Fin x
            \<and> AcceptThreshold (config s) = Fin a \<and> MendThreshold (config s) = Fin m
            \<and> x < a \<and> x < m \<longrightarrow>
          Action (Scorer_Score s rs) = ActionHumanReview)
       \<and> (CompositeScore (Scorer_Score s rs) = NaN \<longrightarrow>
          Action (Scorer_Score s rs) = ActionHumanReview)
       \<and> (CompositeScore (Scorer_Score s rs) = PosInf
            \<and> AcceptThreshold (config s) = Fin a \<longrightarrow>
          Action (Scorer_Score s rs) = ActionAccept)
       \<and> (CompositeScore (Scorer_Score s rs) = NegInf
            \<and> AcceptThreshold (config s) = Fin a \<and> MendThreshold (config s) = Fin m \<longrightarrow>
          Action (Scorer_Score s rs) = ActionHumanReview)
       \<and> Action (Scorer_Score s rs) =
           (if fge (CompositeScore (Scorer_Score s rs)) (AcceptThreshold (config s))
              then ActionAccept
            else if fge (CompositeScore (Scorer_Score s rs)) (MendThreshold (config s))
              then ActionMend
            else ActionHumanReview)"
proof -
  have w: "weightFor s =
      (\<lambda>n. case Weights (config s) n of Some w \<Rightarrow> w | None \<Rightarrow> round64 (10 / 100))"
    by (rule ext) (simp add: weightFor_def)
  have n: "\<not> length (non_skip rs) < 2"
    using assms by simp
  let ?c = "CompositeScore (Scorer_Score s rs)"
  have v: "ValidScore (Scorer_Score s rs)"
    using n by (simp add: Scorer_Score_def score_loop_folds Let_def)
  have c: "?c =
           fdiv
             (foldl fadd (Fin 0)
                (map (\<lambda>r. fmul (Score r)
                        (case Weights (config s) (Name r) of
                           Some w \<Rightarrow> w | None \<Rightarrow> round64 (10 / 100)))
                   (non_skip rs)))
             (foldl fadd (Fin 0)
                (map (\<lambda>r. case Weights (config s) (Name r) of
                             Some w \<Rightarrow> w | None \<Rightarrow> round64 (10 / 100))
                   (non_skip rs)))"
    using n by (simp add: Scorer_Score_def score_loop_folds Let_def w)
  have a: "Action (Scorer_Score s rs) = actionFor s ?c"
    using n by (simp add: Scorer_Score_def score_loop_folds Let_def)
  have r1: "?c = Fin x \<and> AcceptThreshold (config s) = Fin a \<and> a \<le> x \<longrightarrow>
      Action (Scorer_Score s rs) = ActionAccept"
    by (simp add: a actionFor_def)
  have r2: "?c = Fin x \<and> AcceptThreshold (config s) = Fin a \<and> MendThreshold (config s) = Fin m
        \<and> x < a \<and> m \<le> x \<longrightarrow> Action (Scorer_Score s rs) = ActionMend"
    by (simp add: a actionFor_def)
  have r3: "?c = Fin x \<and> AcceptThreshold (config s) = Fin a \<and> MendThreshold (config s) = Fin m
        \<and> x < a \<and> x < m \<longrightarrow> Action (Scorer_Score s rs) = ActionHumanReview"
    by (simp add: a actionFor_def)
  have r4: "?c = NaN \<longrightarrow> Action (Scorer_Score s rs) = ActionHumanReview"
    by (simp add: a actionFor_def)
  have r5: "?c = PosInf \<and> AcceptThreshold (config s) = Fin a \<longrightarrow>
      Action (Scorer_Score s rs) = ActionAccept"
    by (simp add: a actionFor_def)
  have r6: "?c = NegInf \<and> AcceptThreshold (config s) = Fin a \<and> MendThreshold (config s) = Fin m
        \<longrightarrow> Action (Scorer_Score s rs) = ActionHumanReview"
    by (simp add: a actionFor_def)
  have r7: "Action (Scorer_Score s rs) =
           (if fge ?c (AcceptThreshold (config s)) then ActionAccept
            else if fge ?c (MendThreshold (config s)) then ActionMend
            else ActionHumanReview)"
    by (simp add: a actionFor_def)
  from v c r1 r2 r3 r4 r5 r6 r7 show ?thesis by blast
qed

theorem Score_composite_formula_witness:
  "2 \<le> length (non_skip scenario_A)
   \<and> AcceptThreshold (config (NewScorer DefaultScorerConfig)) =
       Fin (3602879701896397 / 4503599627370496)
   \<and> MendThreshold (config (NewScorer DefaultScorerConfig)) = Fin (1 / 2)
   \<and> CompositeScore (Scorer_Score (NewScorer DefaultScorerConfig) scenario_A) =
       Fin (7794691662756627 / 9007199254740992)
   \<and> Action (Scorer_Score (NewScorer DefaultScorerConfig) scenario_A) = ActionAccept
   \<and> 2 \<le> length (non_skip scenario_mend)
   \<and> CompositeScore (Scorer_Score (NewScorer DefaultScorerConfig) scenario_mend) =
       Fin (7205759403792793 / 9007199254740992)
   \<and> Action (Scorer_Score (NewScorer DefaultScorerConfig) scenario_mend) = ActionMend
   \<and> 2 \<le> length (non_skip scenario_review)
   \<and> CompositeScore (Scorer_Score (NewScorer DefaultScorerConfig) scenario_review) =
       Fin (8843431995563883 / 36028797018963968)
   \<and> Action (Scorer_Score (NewScorer DefaultScorerConfig) scenario_review) = ActionHumanReview"
proof -
  let ?s = "NewScorer DefaultScorerConfig"
  let ?w = "\<lambda>r. case Weights (config ?s) (Name r) of
                      Some w \<Rightarrow> w | None \<Rightarrow> round64 (10 / 100)"
  have ta: "AcceptThreshold (config ?s) = Fin (3602879701896397 / 4503599627370496)"
    by (simp add: NewScorer_def DefaultScorerConfig_def DefaultAcceptThreshold_def
        decimal_constants)
  have tm: "MendThreshold (config ?s) = Fin (1 / 2)"
    by (simp add: NewScorer_def DefaultScorerConfig_def DefaultMendThreshold_def
        decimal_constants)
  have h1: "2 \<le> length (non_skip scenario_A)"
    by (simp add: scenario_A_def non_skip_def)
  have h2: "2 \<le> length (non_skip scenario_mend)"
    by (simp add: scenario_mend_def non_skip_def)
  have h3: "2 \<le> length (non_skip scenario_review)"
    by (simp add: scenario_review_def non_skip_def)
  have c1: "fdiv (foldl fadd (Fin 0) (map (\<lambda>r. fmul (Score r) (?w r)) (non_skip scenario_A)))
                 (foldl fadd (Fin 0) (map ?w (non_skip scenario_A))) =
            Fin (7794691662756627 / 9007199254740992)"
    by (simp add: scenario_A_def non_skip_def NewScorer_def DefaultScorerConfig_def
        DefaultWeights_def decimal_constants) (simp add: round64_eval)
  have c2: "fdiv (foldl fadd (Fin 0) (map (\<lambda>r. fmul (Score r) (?w r)) (non_skip scenario_mend)))
                 (foldl fadd (Fin 0) (map ?w (non_skip scenario_mend))) =
            Fin (7205759403792793 / 9007199254740992)"
    by (simp add: scenario_mend_def non_skip_def NewScorer_def DefaultScorerConfig_def
        DefaultWeights_def decimal_constants) (simp add: round64_eval)
  have c3: "fdiv (foldl fadd (Fin 0) (map (\<lambda>r. fmul (Score r) (?w r)) (non_skip scenario_review)))
                 (foldl fadd (Fin 0) (map ?w (non_skip scenario_review))) =
            Fin (8843431995563883 / 36028797018963968)"
    by (simp add: scenario_review_def non_skip_def NewScorer_def DefaultScorerConfig_def
        DefaultWeights_def decimal_constants) (simp add: round64_eval)
  note t1 = Score_composite_formula [OF h1, where s = ?s
      and x = "7794691662756627 / 9007199254740992"
      and a = "3602879701896397 / 4503599627370496" and m = "1 / 2"]
  note t2 = Score_composite_formula [OF h2, where s = ?s
      and x = "7205759403792793 / 9007199254740992"
      and a = "3602879701896397 / 4503599627370496" and m = "1 / 2"]
  note t3 = Score_composite_formula [OF h3, where s = ?s
      and x = "8843431995563883 / 36028797018963968"
      and a = "3602879701896397 / 4503599627370496" and m = "1 / 2"]
  have a1: "Action (Scorer_Score ?s scenario_A) = ActionAccept"
    using t1 c1 ta by simp
  have a2: "Action (Scorer_Score ?s scenario_mend) = ActionMend"
    using t2 c2 ta tm by simp
  have a3: "Action (Scorer_Score ?s scenario_review) = ActionHumanReview"
    using t3 c3 ta tm by simp
  from t1 t2 t3 c1 c2 c3 ta tm h1 h2 h3 a1 a2 a3 show ?thesis by simp
qed

subsection \<open>The range of the composite score\<close>

text \<open>
  With scores in \<open>[0,1]\<close>, weights that are non-negative \<^verbatim>\<open>float64\<close> values, and a
  weight sum that is finite and not zero, the composite score is a finite value in
  \<open>[0,1]\<close>: rounding is monotone, so the rounded weighted sum never exceeds the rounded
  weight sum.
\<close>

lemma score_loop_total_PosInf:
  assumes "\<forall>r \<in> set (non_skip rs). \<exists>w. weightFor s (Name r) = Fin w"
  shows "fst (snd (score_loop s rs (A, PosInf, n))) = PosInf"
  using assms
proof (induction rs arbitrary: A n)
  case Nil
  then show ?case by simp
next
  case (Cons r rs)
  show ?case
  proof (cases "Verdict r = VerdictSkip")
    case True
    with Cons show ?thesis by (simp add: non_skip_def)
  next
    case False
    with Cons.prems obtain w where w: "weightFor s (Name r) = Fin w"
      by (auto simp: non_skip_def)
    from Cons.prems have "\<forall>r \<in> set (non_skip rs). \<exists>w. weightFor s (Name r) = Fin w"
      by (simp add: non_skip_def)
    from Cons.IH [OF this] False w show ?thesis by (simp add: Let_def)
  qed
qed

lemma score_loop_bound:
  assumes "\<forall>r \<in> set (non_skip rs). \<exists>w. weightFor s (Name r) = Fin w \<and> 0 \<le> w \<and> finite64 w"
    and "\<forall>r \<in> set (non_skip rs). \<exists>x. Score r = Fin x \<and> 0 \<le> x \<and> x \<le> 1"
    and "score_loop s rs (Fin a, Fin t, n) = (A, Fin T, N)"
    and "0 \<le> a" "a \<le> t"
  shows "\<exists>a'. A = Fin a' \<and> 0 \<le> a' \<and> a' \<le> T"
  using assms
proof (induction rs arbitrary: a t n)
  case Nil
  then show ?case by auto
next
  case (Cons r rs)
  have rest:
    "\<forall>r \<in> set (non_skip rs). \<exists>w. weightFor s (Name r) = Fin w \<and> 0 \<le> w \<and> finite64 w"
    "\<forall>r \<in> set (non_skip rs). \<exists>x. Score r = Fin x \<and> 0 \<le> x \<and> x \<le> 1"
    using Cons.prems(1,2) by (simp_all add: non_skip_def split: if_splits)
  show ?case
  proof (cases "Verdict r = VerdictSkip")
    case True
    with Cons.prems(3) have "score_loop s rs (Fin a, Fin t, n) = (A, Fin T, N)" by simp
    from Cons.IH [OF rest this Cons.prems(4,5)] show ?thesis .
  next
    case False
    with Cons.prems(1) obtain w where
      w: "weightFor s (Name r) = Fin w" "0 \<le> w" "round64 w = Fin w"
      by (auto simp: non_skip_def finite64_def)
    from False Cons.prems(2) obtain x where x: "Score r = Fin x" "0 \<le> x" "x \<le> 1"
      by (auto simp: non_skip_def)
    have "0 \<le> x * w" "x * w \<le> w" using x w(2) by (simp_all add: mult_left_le_one_le)
    from round64_mono_fin [OF this w(3)]
    obtain p where p: "round64 (x * w) = Fin p" "0 \<le> p" "p \<le> w" by blast
    have tw: "0 \<le> t + w" using Cons.prems(4,5) w(2) by simp
    from round64_nonneg [OF tw] show ?thesis
    proof
      assume inf: "round64 (t + w) = PosInf"
      have "\<forall>r \<in> set (non_skip rs). \<exists>w. weightFor s (Name r) = Fin w"
        using rest(1) by blast
      from score_loop_total_PosInf [OF this]
      have "fst (snd (score_loop s (r # rs) (Fin a, Fin t, n))) = PosInf"
        using False w inf by (simp add: Let_def)
      with Cons.prems(3) show ?thesis by simp
    next
      assume "\<exists>a. round64 (t + w) = Fin a \<and> 0 \<le> a"
      then obtain t' where t': "round64 (t + w) = Fin t'" "0 \<le> t'" by blast
      have "0 \<le> a + p" "a + p \<le> t + w" using Cons.prems(4,5) p(2,3) by simp_all
      from round64_mono_fin [OF this t'(1)]
      obtain a' where a': "round64 (a + p) = Fin a'" "0 \<le> a'" "a' \<le> t'" by blast
      have "score_loop s rs (Fin a', Fin t', Suc n) = (A, Fin T, N)"
        using Cons.prems(3) False w(1) x(1) p(1) a'(1) t'(1) by (simp add: Let_def)
      from Cons.IH [OF rest this a'(2,3)] show ?thesis .
    qed
  qed
qed

lemma Score_in_unit_interval:
  assumes w: "\<forall>r \<in> set (non_skip rs). \<exists>w. weightFor s (Name r) = Fin w \<and> 0 \<le> w \<and> finite64 w"
    and sc: "\<forall>r \<in> set (non_skip rs). \<exists>x. Score r = Fin x \<and> 0 \<le> x \<and> x \<le> 1"
    and t: "foldl fadd (Fin 0) (map (\<lambda>r. weightFor s (Name r)) (non_skip rs)) = Fin T"
    and pos: "T \<noteq> 0"
    and two: "2 \<le> length (non_skip rs)"
  shows "\<exists>x. CompositeScore (Scorer_Score s rs) = Fin x \<and> 0 \<le> x \<and> x \<le> 1"
proof -
  obtain A N where l: "score_loop s rs (Fin 0, Fin 0, 0) = (A, Fin T, N)"
    using t by (simp add: score_loop_folds)
  have N: "N = length (non_skip rs)" using l by (simp add: score_loop_folds)
  from score_loop_bound [OF w sc l] obtain a where a: "A = Fin a" "0 \<le> a" "a \<le> T"
    by auto
  with pos have "0 < T" by simp
  from fdiv_unit_interval [OF a(2,3) this] show ?thesis
    using l a(1) pos two N by (simp add: Scorer_Score_def Let_def)
qed

text \<open>
  Claim C5. The claim is that the composite score lies in \<open>[0,1]\<close> for every list with
  at least two non-skip results when all configured weights and all scores lie in
  \<open>[0,1]\<close>. The weight \<open>0\<close> lies in \<open>[0,1]\<close>; when every result that takes part has the
  configured weight \<open>0\<close>, \<^verbatim>\<open>Score\<close> divides \<open>0\<close> by \<open>0\<close>, and the composite score is NaN
  with \<^verbatim>\<open>ValidScore = true\<close>. \<^verbatim>\<open>DeterministicWeight\<close> tests the same divisor against
  zero before it divides; \<^verbatim>\<open>Score\<close> does not. The theorem runs \<^verbatim>\<open>Score\<close> on such an
  input.
\<close>

theorem Score_zero_weights_NaN:
  "Weights zero_config ''translation_validation'' = Some (Fin 0)
   \<and> Weights zero_config ''mutation_testing'' = Some (Fin 0)
   \<and> map Score two_passes = [Fin 1, Fin 1]
   \<and> length (non_skip two_passes) = 2
   \<and> ValidScore (Scorer_Score (NewScorer zero_config) two_passes)
   \<and> CompositeScore (Scorer_Score (NewScorer zero_config) two_passes) = NaN
   \<and> Action (Scorer_Score (NewScorer zero_config) two_passes) = ActionHumanReview"
  by (simp add: Scorer_Score_def NewScorer_def zero_config_def two_passes_def
      weightFor_def actionFor_def non_skip_def round64_def Let_def)

subsection \<open>Configuration is not validated\<close>

text \<open>
  Claim C6, as stated: a configuration with a weight outside \<open>[0,1]\<close>, or a run with no
  technique, is rejected with \<^verbatim>\<open>ErrInvalidWeight\<close> or \<^verbatim>\<open>ErrNoTechniques\<close> before any
  aggregation. On the code this fails: \<^verbatim>\<open>NewScorer\<close> accepts a configuration with the
  weights \<open>1.5\<close> and \<open>-1\<close>, \<^verbatim>\<open>Score\<close> aggregates with it and returns a valid composite
  score and the action accept, and on an empty result list \<^verbatim>\<open>Score\<close> returns an
  invalid result with the action human review, not an error.
\<close>

theorem NewScorer_accepts_invalid_weight:
  "Weights bad_config ''translation_validation'' = Some (Fin (3 / 2))
   \<and> Weights bad_config ''mutation_testing'' = Some (Fin (- 1))
   \<and> config (NewScorer bad_config) = bad_config
   \<and> ValidScore (Scorer_Score (NewScorer bad_config) two_passes)
   \<and> CompositeScore (Scorer_Score (NewScorer bad_config) two_passes) = Fin 1
   \<and> Action (Scorer_Score (NewScorer bad_config) two_passes) = ActionAccept
   \<and> Scorer_Score (NewScorer bad_config) [] =
       \<lparr>TechniqueResults = [], CompositeScore = Fin 0,
        Action = ActionHumanReview, ValidScore = False\<rparr>"
  by (simp add: Scorer_Score_def NewScorer_def bad_config_def two_passes_def
      weightFor_def actionFor_def decimal_constants) (simp add: round64_eval)

text \<open>
  Claim C6, amended: no configuration is rejected, at configuration time or later.
  \<^verbatim>\<open>NewScorer\<close> has no error result and performs no check: for every configuration it
  returns a scorer that holds the configuration unchanged, \<^verbatim>\<open>weightFor\<close> uses every
  configured weight as it is, inside \<open>[0,1]\<close> or not, and \<^verbatim>\<open>Score\<close> aggregates under
  every configuration (with two non-skip results it returns \<^verbatim>\<open>ValidScore = true\<close>). On
  an empty result list \<^verbatim>\<open>Score\<close> returns \<^verbatim>\<open>ValidScore = false\<close> with the action human
  review. \<^verbatim>\<open>ErrInsufficientTechniques\<close>, \<^verbatim>\<open>ErrInvalidWeight\<close> and
  \<^verbatim>\<open>ErrNoTechniques\<close> are declared as distinct values, and no function of the package
  returns one of them: \<^verbatim>\<open>findMutationSites\<close> returns a list of mutants or an error
  built by \<^verbatim>\<open>fmt.Errorf\<close>, and both \<^verbatim>\<open>Run\<close> functions return a result and a nil error.
\<close>

theorem NewScorer_no_validation:
  "config (NewScorer c) = c
   \<and> (Weights c n = Some wt \<longrightarrow> weightFor (NewScorer c) n = wt)
   \<and> (2 \<le> length (non_skip rs) \<longrightarrow> ValidScore (Scorer_Score (NewScorer c) rs))
   \<and> Scorer_Score (NewScorer c) [] =
       \<lparr>TechniqueResults = [], CompositeScore = Fin 0,
        Action = ActionHumanReview, ValidScore = False\<rparr>
   \<and> ErrInvalidWeight \<noteq> ErrNoTechniques
   \<and> ErrInvalidWeight \<noteq> ErrInsufficientTechniques
   \<and> ErrNoTechniques \<noteq> ErrInsufficientTechniques
   \<and> (e \<in> {ErrInsufficientTechniques, ErrInvalidWeight, ErrNoTechniques} \<longrightarrow>
        findMutationSites ParseFile w path \<noteq> Inl e
        \<and> fst (MutationRunner_Run ParseFile m input w) \<noteq> Inl e
        \<and> TranslationValidator_Run t input \<noteq> Inl e)
   \<and> (\<exists>r. fst (MutationRunner_Run ParseFile m input w) = Inr r)
   \<and> (\<exists>r. TranslationValidator_Run t input = Inr r)"
proof -
  have a: "config (NewScorer c) = c"
    by (simp add: NewScorer_def)
  have b: "Weights c n = Some wt \<longrightarrow> weightFor (NewScorer c) n = wt"
    by (simp add: NewScorer_def weightFor_def)
  have v: "2 \<le> length (non_skip rs) \<longrightarrow> ValidScore (Scorer_Score (NewScorer c) rs)"
    by (simp add: Scorer_Score_def score_loop_folds Let_def)
  have d: "Scorer_Score (NewScorer c) [] =
       \<lparr>TechniqueResults = [], CompositeScore = Fin 0,
        Action = ActionHumanReview, ValidScore = False\<rparr>"
    by (simp add: Scorer_Score_def)
  have f: "findMutationSites ParseFile w path \<noteq> Inl e"
    if "e \<in> {ErrInsufficientTechniques, ErrInvalidWeight, ErrNoTechniques}"
    using that by (auto simp: findMutationSites_def split: sum.splits)
  have g: "\<exists>r. fst (MutationRunner_Run ParseFile m input w) = Inr r"
    by (simp add: MutationRunner_Run_def Let_def split: prod.splits)
  have h: "\<exists>r. TranslationValidator_Run t input = Inr r"
    by (simp add: TranslationValidator_Run_def Let_def split: prod.splits)
  from g have g': "fst (MutationRunner_Run ParseFile m input w) \<noteq> Inl e"
    by auto
  from h have h': "TranslationValidator_Run t input \<noteq> Inl e"
    by auto
  from a b v d f g h g' h' show ?thesis by simp
qed

theorem NewScorer_no_validation_witness:
  "Weights bad_config ''mutation_testing'' = Some (Fin (- 1))
   \<and> config (NewScorer bad_config) = bad_config
   \<and> weightFor (NewScorer bad_config) ''mutation_testing'' = Fin (- 1)
   \<and> 2 \<le> length (non_skip two_passes)
   \<and> ValidScore (Scorer_Score (NewScorer bad_config) two_passes)
   \<and> ValidScore (Scorer_Score (NewScorer bad_config) []) = False
   \<and> findMutationSites parser_none world_empty ''a.go'' \<noteq> Inl ErrInvalidWeight
   \<and> fst (MutationRunner_Run parser_none runner_pass input_docs world_empty)
       \<noteq> Inl ErrNoTechniques
   \<and> TranslationValidator_Run validator_T input_docs \<noteq> Inl ErrNoTechniques"
proof -
  have h: "Weights bad_config ''mutation_testing'' = Some (Fin (- 1))"
    by (simp add: bad_config_def)
  have n: "2 \<le> length (non_skip two_passes)"
    by (simp add: non_skip_def two_passes_def)
  note t1 = NewScorer_no_validation [where c = bad_config and n = "''mutation_testing''"
      and wt = "Fin (- 1)" and rs = two_passes and e = ErrInvalidWeight
      and ParseFile = parser_none and w = world_empty and path = "''a.go''"
      and m = runner_pass and input = input_docs and t = validator_T]
  note t2 = NewScorer_no_validation [where c = bad_config and n = "''mutation_testing''"
      and wt = "Fin (- 1)" and rs = two_passes and e = ErrNoTechniques
      and ParseFile = parser_none and w = world_empty and path = "''a.go''"
      and m = runner_pass and input = input_docs and t = validator_T]
  from t1 t2 h n show ?thesis by simp
qed

subsection \<open>The division guard of the determinism accounting\<close>

lemma det_loop_total_PosInf:
  assumes "\<forall>r \<in> set (non_skip rs). \<exists>w. weightFor s (Name r) = Fin w"
  shows "snd (det_loop s rs (D, PosInf)) = PosInf"
  using assms
proof (induction rs arbitrary: D)
  case Nil
  then show ?case by simp
next
  case (Cons r rs)
  show ?case
  proof (cases "Verdict r = VerdictSkip")
    case True
    with Cons show ?thesis by (simp add: non_skip_def)
  next
    case False
    with Cons.prems obtain w where w: "weightFor s (Name r) = Fin w"
      by (auto simp: non_skip_def)
    from Cons.prems have "\<forall>r \<in> set (non_skip rs). \<exists>w. weightFor s (Name r) = Fin w"
      by (simp add: non_skip_def)
    from Cons.IH [OF this] False w show ?thesis by (simp add: Let_def)
  qed
qed

lemma det_loop_bound:
  assumes "\<forall>r \<in> set (non_skip rs). \<exists>w. weightFor s (Name r) = Fin w \<and> 0 \<le> w"
    and "det_loop s rs (Fin d, Fin t) = (D, Fin T)"
    and "0 \<le> d" "d \<le> t" "finite64 d"
  shows "\<exists>d'. D = Fin d' \<and> 0 \<le> d' \<and> d' \<le> T"
  using assms
proof (induction rs arbitrary: d t)
  case Nil
  then show ?case by auto
next
  case (Cons r rs)
  have rest: "\<forall>r \<in> set (non_skip rs). \<exists>w. weightFor s (Name r) = Fin w \<and> 0 \<le> w"
    using Cons.prems(1) by (simp add: non_skip_def split: if_splits)
  show ?case
  proof (cases "Verdict r = VerdictSkip")
    case True
    with Cons.prems(2) have "det_loop s rs (Fin d, Fin t) = (D, Fin T)" by simp
    from Cons.IH [OF rest this Cons.prems(3-5)] show ?thesis .
  next
    case False
    with Cons.prems(1) obtain w where w: "weightFor s (Name r) = Fin w" "0 \<le> w"
      by (auto simp: non_skip_def)
    have tw: "0 \<le> t + w" using Cons.prems(3,4) w(2) by simp
    from round64_nonneg [OF tw] show ?thesis
    proof
      assume inf: "round64 (t + w) = PosInf"
      have "\<forall>r \<in> set (non_skip rs). \<exists>w. weightFor s (Name r) = Fin w"
        using rest by blast
      from det_loop_total_PosInf [OF this] have "snd (det_loop s (r # rs) (Fin d, Fin t)) = PosInf"
        using False w inf by (simp add: Let_def)
      with Cons.prems(2) show ?thesis by simp
    next
      assume "\<exists>a. round64 (t + w) = Fin a \<and> 0 \<le> a"
      then obtain t' where t': "round64 (t + w) = Fin t'" "0 \<le> t'" by blast
      show ?thesis
      proof (cases "Deterministic r")
        case True
        have "0 \<le> d + w" "d + w \<le> t + w" using Cons.prems(3,4) w(2) by simp_all
        from round64_mono_fin [OF this t'(1)]
        obtain a where a: "round64 (d + w) = Fin a" "0 \<le> a" "a \<le> t'" by blast
        have fa: "finite64 a"
          using \<open>0 \<le> d + w\<close> a(1) by (rule round64_idem)
        have "det_loop s rs (Fin a, Fin t') = (D, Fin T)"
          using Cons.prems(2) False True w a(1) t'(1) by (simp add: Let_def)
        from Cons.IH [OF rest this a(2) a(3) fa] show ?thesis .
      next
        case nd: False
        have "d \<le> t + w" using Cons.prems(4) w(2) by simp
        from round64_mono_fin [OF Cons.prems(3) this t'(1)]
        obtain a where a: "round64 d = Fin a" "a \<le> t'" by blast
        with Cons.prems(5) have dt: "d \<le> t'" by (simp add: finite64_def)
        have "det_loop s rs (Fin d, Fin t') = (D, Fin T)"
          using Cons.prems(2) False nd w t'(1) by (simp add: Let_def)
        from Cons.IH [OF rest this Cons.prems(3) dt Cons.prems(5)] show ?thesis .
      qed
    qed
  qed
qed

lemma DeterministicWeight_unit_interval:
  assumes w: "\<forall>r \<in> set (non_skip rs). \<exists>w. weightFor s (Name r) = Fin w \<and> 0 \<le> w"
    and t: "foldl fadd (Fin 0) (map (\<lambda>r. weightFor s (Name r)) (non_skip rs)) = Fin T"
  shows "\<exists>x. DeterministicWeight s rs = Fin x \<and> 0 \<le> x \<and> x \<le> 1"
proof -
  obtain D where l: "det_loop s rs (Fin 0, Fin 0) = (D, Fin T)"
    using t by (simp add: det_loop_folds)
  from det_loop_bound [OF w l] obtain d where d: "D = Fin d" "0 \<le> d" "d \<le> T"
    by auto
  show ?thesis
  proof (cases "T = 0")
    case True
    then show ?thesis using l by (simp add: DeterministicWeight_def)
  next
    case False
    with d have "0 < T" by simp
    from fdiv_unit_interval [OF d(2,3) this] show ?thesis
      using l d(1) False by (simp add: DeterministicWeight_def)
  qed
qed

text \<open>
  Claim C10, as stated: when the weights of the non-skip results sum to zero
  \<^verbatim>\<open>DeterministicWeight\<close> returns \<open>0\<close> and does not divide, so its result is always a
  defined value in \<open>[0,1]\<close>. On the code the last part fails: nothing keeps a
  configured weight from being negative, and with the weights \<open>1\<close> (deterministic) and
  \<open>-0.5\<close> (not deterministic) the sums are \<open>1\<close> and \<open>0.5\<close> and the result is \<open>2\<close>.
\<close>

theorem DeterministicWeight_outside_unit_interval:
  "Weights negative_config ''mutation_testing'' = Some (Fin 1)
   \<and> Weights negative_config ''translation_validation'' = Some (Fin (- 1 / 2))
   \<and> map Deterministic mixed_results = [True, False]
   \<and> length (non_skip mixed_results) = 2
   \<and> DeterministicWeight (NewScorer negative_config) mixed_results = Fin 2"
  by (simp add: DeterministicWeight_def NewScorer_def negative_config_def mixed_results_def
      weightFor_def non_skip_def) (simp add: round64_eval)

text \<open>
  Claim C10, amended: when the \<^verbatim>\<open>float64\<close> sum of the weights of the non-skip results
  is zero, in particular for the empty list and for a list of skipped results only,
  \<^verbatim>\<open>DeterministicWeight\<close> returns exactly \<open>0\<close> rather than dividing by zero, so on
  these inputs its result is a defined value in \<open>[0,1]\<close>; on every other input the
  result is the quotient of the sum of the deterministic weights by the sum of all
  weights. That quotient is a defined value in \<open>[0,1]\<close> whenever every weight that
  takes part is finite and not negative and the sum of the weights is finite; with a
  negative weight it need not lie in \<open>[0,1]\<close>. \<^verbatim>\<open>Score\<close> has no corresponding guard:
  with at least two non-skip results whose weights sum to zero it divides by zero, and
  its composite score is NaN or an infinity.
\<close>

theorem DeterministicWeight_guard:
  "(foldl fadd (Fin 0) (map (\<lambda>r. weightFor s (Name r)) (non_skip rs)) = Fin 0 \<longrightarrow>
      DeterministicWeight s rs = Fin 0)
   \<and> DeterministicWeight s [] = Fin 0
   \<and> (non_skip rs = [] \<longrightarrow> DeterministicWeight s rs = Fin 0)
   \<and> (foldl fadd (Fin 0) (map (\<lambda>r. weightFor s (Name r)) (non_skip rs)) \<noteq> Fin 0 \<longrightarrow>
      DeterministicWeight s rs =
        fdiv (foldl fadd (Fin 0)
                (map (\<lambda>r. weightFor s (Name r)) (filter Deterministic (non_skip rs))))
             (foldl fadd (Fin 0) (map (\<lambda>r. weightFor s (Name r)) (non_skip rs))))
   \<and> ((\<forall>r \<in> set (non_skip rs). \<exists>w. weightFor s (Name r) = Fin w \<and> 0 \<le> w)
        \<and> (\<exists>T. foldl fadd (Fin 0) (map (\<lambda>r. weightFor s (Name r)) (non_skip rs)) = Fin T)
        \<longrightarrow>
      (\<exists>x. DeterministicWeight s rs = Fin x \<and> 0 \<le> x \<and> x \<le> 1))
   \<and> (2 \<le> length (non_skip rs)
        \<and> foldl fadd (Fin 0) (map (\<lambda>r. weightFor s (Name r)) (non_skip rs)) = Fin 0 \<longrightarrow>
      CompositeScore (Scorer_Score s rs) \<in> {NaN, PosInf, NegInf})"
proof -
  let ?W = "foldl fadd (Fin 0) (map (\<lambda>r. weightFor s (Name r)) (non_skip rs))"
  let ?D = "foldl fadd (Fin 0)
      (map (\<lambda>r. weightFor s (Name r)) (filter Deterministic (non_skip rs)))"
  have dw: "DeterministicWeight s rs = (if ?W = Fin 0 then Fin 0 else fdiv ?D ?W)"
    by (simp add: DeterministicWeight_def det_loop_folds)
  have a: "?W = Fin 0 \<longrightarrow> DeterministicWeight s rs = Fin 0"
    by (simp add: dw)
  have b: "DeterministicWeight s [] = Fin 0"
    by (simp add: DeterministicWeight_def)
  have c: "non_skip rs = [] \<longrightarrow> DeterministicWeight s rs = Fin 0"
    by (simp add: dw)
  have d: "?W \<noteq> Fin 0 \<longrightarrow> DeterministicWeight s rs = fdiv ?D ?W"
    by (simp add: dw)
  have f: "2 \<le> length (non_skip rs) \<and> ?W = Fin 0 \<longrightarrow>
        CompositeScore (Scorer_Score s rs) \<in> {NaN, PosInf, NegInf}"
  proof
    assume h: "2 \<le> length (non_skip rs) \<and> ?W = Fin 0"
    then have "CompositeScore (Scorer_Score s rs) =
        fdiv (foldl fadd (Fin 0)
                (map (\<lambda>r. fmul (Score r) (weightFor s (Name r))) (non_skip rs))) (Fin 0)"
      by (simp add: Scorer_Score_def score_loop_folds Let_def)
    then show "CompositeScore (Scorer_Score s rs) \<in> {NaN, PosInf, NegInf}"
      by (simp only: fdiv_zero_not_finite)
  qed
  have e: "(\<forall>r \<in> set (non_skip rs). \<exists>w. weightFor s (Name r) = Fin w \<and> 0 \<le> w)
        \<and> (\<exists>T. ?W = Fin T) \<longrightarrow>
      (\<exists>x. DeterministicWeight s rs = Fin x \<and> 0 \<le> x \<and> x \<le> 1)"
    using DeterministicWeight_unit_interval by blast
  from a b c d e f show ?thesis by blast
qed

theorem DeterministicWeight_guard_witness:
  "foldl fadd (Fin 0)
     (map (\<lambda>r. weightFor (NewScorer zero_config) (Name r)) (non_skip two_passes)) = Fin 0
   \<and> 2 \<le> length (non_skip two_passes)
   \<and> DeterministicWeight (NewScorer zero_config) two_passes = Fin 0
   \<and> CompositeScore (Scorer_Score (NewScorer zero_config) two_passes) \<in> {NaN, PosInf, NegInf}
   \<and> foldl fadd (Fin 0)
       (map (\<lambda>r. weightFor (NewScorer negative_config) (Name r)) (non_skip mixed_results))
       = Fin (1 / 2)
   \<and> DeterministicWeight (NewScorer negative_config) mixed_results = fdiv (Fin 1) (Fin (1 / 2))
   \<and> non_skip [\<lparr>Name = ''mutation_testing'', Score = Fin 0, Verdict = VerdictSkip,
                 Evidence = [], Deterministic = True\<rparr>] = []
   \<and> DeterministicWeight (NewScorer DefaultScorerConfig)
        [\<lparr>Name = ''mutation_testing'', Score = Fin 0, Verdict = VerdictSkip,
          Evidence = [], Deterministic = True\<rparr>] = Fin 0
   \<and> map (\<lambda>r. weightFor (NewScorer DefaultScorerConfig) (Name r)) (non_skip scenario_A) =
       [Fin (5404319552844595 / 18014398509481984), Fin (1 / 4),
        Fin (3602879701896397 / 36028797018963968)]
   \<and> foldl fadd (Fin 0)
       (map (\<lambda>r. weightFor (NewScorer DefaultScorerConfig) (Name r)) (non_skip scenario_A))
       = Fin (5854679515581645 / 9007199254740992)
   \<and> DeterministicWeight (NewScorer DefaultScorerConfig) scenario_A =
       Fin (4850030367937457 / 9007199254740992)
   \<and> (\<exists>x. DeterministicWeight (NewScorer DefaultScorerConfig) scenario_A = Fin x
         \<and> 0 \<le> x \<and> x \<le> 1)"
proof -
  have w: "foldl fadd (Fin 0)
     (map (\<lambda>r. weightFor (NewScorer zero_config) (Name r)) (non_skip two_passes)) = Fin 0"
    by (simp add: non_skip_def two_passes_def zero_config_def NewScorer_def weightFor_def
        round64_def)
  have n: "2 \<le> length (non_skip two_passes)"
    by (simp add: non_skip_def two_passes_def)
  have w2: "foldl fadd (Fin 0)
       (map (\<lambda>r. weightFor (NewScorer negative_config) (Name r)) (non_skip mixed_results))
       = Fin (1 / 2)"
    by (simp add: non_skip_def mixed_results_def negative_config_def NewScorer_def
        weightFor_def) (simp add: round64_eval)
  have d2: "foldl fadd (Fin 0)
       (map (\<lambda>r. weightFor (NewScorer negative_config) (Name r))
          (filter Deterministic (non_skip mixed_results))) = Fin 1"
    by (simp add: non_skip_def mixed_results_def negative_config_def NewScorer_def
        weightFor_def) (simp add: round64_eval)
  have k: "non_skip [\<lparr>Name = ''mutation_testing'', Score = Fin 0, Verdict = VerdictSkip,
                 Evidence = [], Deterministic = True\<rparr>] = []"
    by (simp add: non_skip_def)
  note t1 = DeterministicWeight_guard [where rs = two_passes and s = "NewScorer zero_config"]
  note t2 = DeterministicWeight_guard [where rs = mixed_results
      and s = "NewScorer negative_config"]
  note t3 = DeterministicWeight_guard [where
      rs = "[\<lparr>Name = ''mutation_testing'', Score = Fin 0, Verdict = VerdictSkip,
             Evidence = [], Deterministic = True\<rparr>]"
      and s = "NewScorer DefaultScorerConfig"]
  from t1 w n have r1: "DeterministicWeight (NewScorer zero_config) two_passes = Fin 0"
    "CompositeScore (Scorer_Score (NewScorer zero_config) two_passes) \<in> {NaN, PosInf, NegInf}"
    by blast+
  from t2 w2 d2 have r2: "DeterministicWeight (NewScorer negative_config) mixed_results =
      fdiv (Fin 1) (Fin (1 / 2))"
    by simp
  from t3 k have r3: "DeterministicWeight (NewScorer DefaultScorerConfig)
        [\<lparr>Name = ''mutation_testing'', Score = Fin 0, Verdict = VerdictSkip,
          Evidence = [], Deterministic = True\<rparr>] = Fin 0"
    by blast
  have m4: "map (\<lambda>r. weightFor (NewScorer DefaultScorerConfig) (Name r)) (non_skip scenario_A) =
       [Fin (5404319552844595 / 18014398509481984), Fin (1 / 4),
        Fin (3602879701896397 / 36028797018963968)]"
    by (simp add: non_skip_def scenario_A_def NewScorer_def DefaultScorerConfig_def
        DefaultWeights_def weightFor_def decimal_constants)
  have w4: "foldl fadd (Fin 0)
       (map (\<lambda>r. weightFor (NewScorer DefaultScorerConfig) (Name r)) (non_skip scenario_A))
       = Fin (5854679515581645 / 9007199254740992)"
    unfolding m4 by (simp add: round64_eval)
  have d4: "foldl fadd (Fin 0)
       (map (\<lambda>r. weightFor (NewScorer DefaultScorerConfig) (Name r))
          (filter Deterministic (non_skip scenario_A)))
       = Fin (3152519739159347 / 9007199254740992)"
    by (simp add: non_skip_def scenario_A_def NewScorer_def DefaultScorerConfig_def
        DefaultWeights_def weightFor_def decimal_constants) (simp add: round64_eval)
  have q4: "fdiv (Fin (3152519739159347 / 9007199254740992))
                 (Fin (5854679515581645 / 9007199254740992)) =
            Fin (4850030367937457 / 9007199254740992)"
    by (simp add: round64_eval)
  have e1: "\<exists>w. Fin (5404319552844595 / 18014398509481984) = Fin w \<and> 0 \<le> w"
    by (rule exI [of _ "5404319552844595 / 18014398509481984"]) simp
  have e2: "\<exists>w. Fin (1 / 4) = Fin w \<and> 0 \<le> w"
    by (rule exI [of _ "1 / 4"]) simp
  have e3: "\<exists>w. Fin (3602879701896397 / 36028797018963968) = Fin w \<and> 0 \<le> w"
    by (rule exI [of _ "3602879701896397 / 36028797018963968"]) simp
  have "\<forall>x \<in> set (map (\<lambda>r. weightFor (NewScorer DefaultScorerConfig) (Name r))
        (non_skip scenario_A)). \<exists>w. x = Fin w \<and> 0 \<le> w"
    using e1 e2 e3 unfolding m4 list.set by blast
  then have nn4: "\<forall>r \<in> set (non_skip scenario_A).
      \<exists>w. weightFor (NewScorer DefaultScorerConfig) (Name r) = Fin w \<and> 0 \<le> w"
    by (simp only: set_map ball_simps)
  note t4 = DeterministicWeight_guard [where rs = scenario_A
      and s = "NewScorer DefaultScorerConfig"]
  from t4 w4 d4 q4 have r4: "DeterministicWeight (NewScorer DefaultScorerConfig) scenario_A =
       Fin (4850030367937457 / 9007199254740992)"
    by simp
  from t4 nn4 w4 have r5: "\<exists>x. DeterministicWeight (NewScorer DefaultScorerConfig) scenario_A
        = Fin x \<and> 0 \<le> x \<and> x \<le> 1"
    by blast
  from w n w2 k r1 r2 r3 m4 w4 r4 r5 show ?thesis by blast
qed

section \<open>Properties of the mutation runner\<close>

subsection \<open>Site discovery\<close>

lemma visit_append: "visit f n acc = acc @ visit f n []"
  by (cases n) (simp_all add: Let_def split: option.splits)

lemma Inspect_visit_preorder:
  "Inspect (visit f) t acc = acc @ concat (map (\<lambda>n. visit f n []) (preorder t))"
proof (induction t arbitrary: acc)
  case (BinaryExpr l op x y)
  show ?case
    by (simp add: BinaryExpr.IH visit_append [of f "BinaryExpr l op x y" acc] del: visit.simps)
next
  case (UnaryExpr l op x)
  show ?case
    by (simp add: UnaryExpr.IH visit_append [of f "UnaryExpr l op x" acc] del: visit.simps)
next
  case (OtherNode cs)
  have "fold (Inspect (visit f)) ds a =
          a @ concat (map (\<lambda>n. visit f n []) (concat (map preorder ds)))"
    if "set ds \<subseteq> set cs" for ds a
    using that
  proof (induction ds arbitrary: a)
    case Nil
    then show ?case by simp
  next
    case (Cons d ds)
    then have "d \<in> set cs" by simp
    from OtherNode.IH [OF this] Cons show ?case by simp
  qed
  then show ?case by simp
qed

text \<open>
  Claim C4. The replacement table maps each of the twelve operators
  \<open>+ - * / == != < >= > <= && ||\<close> to its paired opposite and no other operator to
  anything; the boundary table maps each of \<open>< <= > >=\<close> to its neighbour across the
  boundary and no other operator to anything. A binary expression yields one
  operator-replacement mutant when its operator is in the first table and, after it, one
  boundary-change mutant when it is in the second (so \<open><\<close> yields the two mutants
  \<open>>=\<close> and \<open><=\<close>); a unary \<open>!\<close> yields one condition-negation mutant; every other
  node yields none. Site discovery returns exactly the mutants of the nodes of the
  parsed tree, in the order of the traversal.
\<close>

theorem mutation_taxonomy:
  "map operatorReplacement [ADD, SUB, MUL, QUO, EQL, NEQ, LSS, GEQ, GTR, LEQ, LAND, LOR]
     = map Some [SUB, ADD, QUO, MUL, NEQ, EQL, GEQ, LSS, LEQ, GTR, LOR, LAND]
   \<and> (op \<notin> set [ADD, SUB, MUL, QUO, EQL, NEQ, LSS, GEQ, GTR, LEQ, LAND, LOR] \<longrightarrow>
        operatorReplacement op = None)
   \<and> map boundaryChange [LSS, LEQ, GTR, GEQ] = map Some [LEQ, LSS, GEQ, GTR]
   \<and> (op \<notin> set [LSS, LEQ, GTR, GEQ] \<longrightarrow> boundaryChange op = None)
   \<and> visit filePath (BinaryExpr l op x y) [] =
       (case operatorReplacement op of
          None \<Rightarrow> []
        | Some r \<Rightarrow>
            [mutant_of filePath l MutationOperatorReplace (token_String op) (token_String r)])
       @ (case boundaryChange op of
            None \<Rightarrow> []
          | Some b \<Rightarrow>
              [mutant_of filePath l MutationBoundaryChange (token_String op) (token_String b)])
   \<and> visit filePath (BinaryExpr l LSS x y) [] =
       [mutant_of filePath l MutationOperatorReplace ''<'' ''>='',
        mutant_of filePath l MutationBoundaryChange ''<'' ''<='']
   \<and> visit filePath (UnaryExpr l NOT x) [] =
       [mutant_of filePath l MutationConditionNegate ''!expr'' ''expr'']
   \<and> (op \<noteq> NOT \<longrightarrow> visit filePath (UnaryExpr l op x) [] = [])
   \<and> visit filePath (OtherNode cs) [] = []
   \<and> (ParseFile (files w) filePath = Inr t \<longrightarrow>
        findMutationSites ParseFile w filePath =
          Inr (concat (map (\<lambda>n. visit filePath n []) (preorder t))))"
proof -
  have a: "map operatorReplacement [ADD, SUB, MUL, QUO, EQL, NEQ, LSS, GEQ, GTR, LEQ, LAND, LOR]
     = map Some [SUB, ADD, QUO, MUL, NEQ, EQL, GEQ, LSS, LEQ, GTR, LOR, LAND]"
    by (simp add: operatorReplacement_def)
  have b: "op \<notin> set [ADD, SUB, MUL, QUO, EQL, NEQ, LSS, GEQ, GTR, LEQ, LAND, LOR] \<longrightarrow>
        operatorReplacement op = None"
    by (cases op) (simp_all add: operatorReplacement_def)
  have c: "map boundaryChange [LSS, LEQ, GTR, GEQ] = map Some [LEQ, LSS, GEQ, GTR]"
    by (simp add: boundaryChange_def)
  have d: "op \<notin> set [LSS, LEQ, GTR, GEQ] \<longrightarrow> boundaryChange op = None"
    by (cases op) (simp_all add: boundaryChange_def)
  have e: "visit filePath (BinaryExpr l op x y) [] =
       (case operatorReplacement op of
          None \<Rightarrow> []
        | Some r \<Rightarrow>
            [mutant_of filePath l MutationOperatorReplace (token_String op) (token_String r)])
       @ (case boundaryChange op of
            None \<Rightarrow> []
          | Some b \<Rightarrow>
              [mutant_of filePath l MutationBoundaryChange (token_String op) (token_String b)])"
    by (simp add: mutant_of_def Let_def split: option.splits)
  have f: "visit filePath (BinaryExpr l LSS x y) [] =
       [mutant_of filePath l MutationOperatorReplace ''<'' ''>='',
        mutant_of filePath l MutationBoundaryChange ''<'' ''<='']"
    by (simp add: mutant_of_def operatorReplacement_def boundaryChange_def)
  have g: "visit filePath (UnaryExpr l NOT x) [] =
       [mutant_of filePath l MutationConditionNegate ''!expr'' ''expr'']"
    by (simp add: mutant_of_def)
  have h: "op \<noteq> NOT \<longrightarrow> visit filePath (UnaryExpr l op x) [] = []"
    by simp
  have i: "visit filePath (OtherNode cs) [] = []"
    by simp
  have j: "ParseFile (files w) filePath = Inr t \<longrightarrow>
        findMutationSites ParseFile w filePath =
          Inr (concat (map (\<lambda>n. visit filePath n []) (preorder t)))"
    by (simp add: findMutationSites_def Inspect_visit_preorder)
  from a b c d e f g h i j show ?thesis by blast
qed

theorem mutation_taxonomy_witness:
  "REM \<notin> set [ADD, SUB, MUL, QUO, EQL, NEQ, LSS, GEQ, GTR, LEQ, LAND, LOR]
   \<and> REM \<notin> set [LSS, LEQ, GTR, GEQ]
   \<and> REM \<noteq> NOT
   \<and> parser_C (files world_C) ''example.go'' = Inr tree_C
   \<and> operatorReplacement REM = None
   \<and> boundaryChange REM = None
   \<and> visit ''example.go'' (UnaryExpr 1 REM (OtherNode [])) [] = []
   \<and> findMutationSites parser_C world_C ''example.go'' =
       Inr [mutant_of ''example.go'' 4 MutationOperatorReplace ''<'' ''>='',
            mutant_of ''example.go'' 4 MutationBoundaryChange ''<'' ''<='',
            mutant_of ''example.go'' 5 MutationOperatorReplace ''+'' ''-'',
            mutant_of ''example.go'' 7 MutationOperatorReplace ''-'' ''+'',
            mutant_of ''example.go'' 7 MutationConditionNegate ''!expr'' ''expr'']"
proof -
  have p: "parser_C (files world_C) ''example.go'' = Inr tree_C"
    by (simp add: parser_C_def world_C_def)
  have v: "concat (map (\<lambda>n. visit ''example.go'' n []) (preorder tree_C)) =
       [mutant_of ''example.go'' 4 MutationOperatorReplace ''<'' ''>='',
        mutant_of ''example.go'' 4 MutationBoundaryChange ''<'' ''<='',
        mutant_of ''example.go'' 5 MutationOperatorReplace ''+'' ''-'',
        mutant_of ''example.go'' 7 MutationOperatorReplace ''-'' ''+'',
        mutant_of ''example.go'' 7 MutationConditionNegate ''!expr'' ''expr'']"
    by (simp add: tree_C_def mutant_of_def operatorReplacement_def boundaryChange_def)
  from mutation_taxonomy [where op = REM and filePath = "''example.go''" and l = 1
      and x = "OtherNode []" and ParseFile = parser_C and w = world_C and t = tree_C] p v
  show ?thesis by simp
qed

subsection \<open>The apply, test, restore cycle\<close>

lemma WriteFile_succeeds:
  assumes "all_writes_succeed w"
  shows "\<exists>w1. WriteFile path data w = (None, w1) \<and> files w1 = (files w)(path \<mapsto> data)
           \<and> all_writes_succeed w1"
  using assms
  by (cases "outcomes w")
     (auto simp: WriteFile_def all_writes_succeed_def split: write_outcome.splits list.splits)

lemma all_writes_succeed_files [simp]:
  "all_writes_succeed (w\<lparr>files := fs\<rparr>) = all_writes_succeed w"
  by (simp add: all_writes_succeed_def)

text \<open>
  Claim C3. When every write the runner issues succeeds, reading the file after a call
  of \<^verbatim>\<open>applyAndTest\<close> gives what reading it at the start of the call gave: the same
  bytes (or the same failure to read), whether or not the mutant applied, whatever the
  test command returned, and whatever the test command did to the files.
\<close>

theorem applyAndTest_restores:
  assumes "all_writes_succeed w"
  shows "ReadFile (snd (applyAndTest m filePath line original mutated packages w)) filePath
           = ReadFile w filePath"
proof (cases "files w filePath")
  case None
  then show ?thesis by (simp add: applyAndTest_def ReadFile_def)
next
  case (Some content)
  let ?lines = "Split_newline content"
  let ?mutatedLine = "Replace_first (?lines ! nat (line - 1)) original mutated"
  show ?thesis
  proof (cases "line < 1 \<or> line > int (length ?lines) \<or> ?mutatedLine = ?lines ! nat (line - 1)")
    case True
    then show ?thesis using Some by (auto simp: applyAndTest_def ReadFile_def Let_def)
  next
    case False
    from WriteFile_succeeds [OF assms]
    obtain w1 where w1: "WriteFile filePath
        (Join_newline (?lines[nat (line - 1) := ?mutatedLine])) w = (None, w1)"
      "all_writes_succeed w1"
      by blast
    obtain r fs2 where t: "runTests m packages (files w1) = (r, fs2)"
      by (cases "runTests m packages (files w1)")
    have "all_writes_succeed (w1\<lparr>files := fs2\<rparr>)"
      using w1(2) by simp
    from WriteFile_succeeds [OF this]
    obtain w3 where w3: "WriteFile filePath content (w1\<lparr>files := fs2\<rparr>) = (None, w3)"
      "files w3 = (files (w1\<lparr>files := fs2\<rparr>))(filePath \<mapsto> content)"
      by blast
    have "applyAndTest m filePath line original mutated packages w = (r \<noteq> None, w3)"
      using Some False w1(1) t w3(1) by (simp add: applyAndTest_def ReadFile_def Let_def)
    then show ?thesis using Some w3(2) by (simp add: ReadFile_def)
  qed
qed

theorem applyAndTest_restores_witness:
  "all_writes_succeed world_T
   \<and> ReadFile world_T ''a.go'' = Inr ''x := a + b''
   \<and> applyAndTest runner_fail ''a.go'' 1 ''+'' ''-'' [''./...''] world_T =
       (True, \<lparr>files = [''a.go'' \<mapsto> ''x := a + b''], outcomes = []\<rparr>)
   \<and> ReadFile (snd (applyAndTest runner_fail ''a.go'' 1 ''+'' ''-'' [''./...''] world_T)) ''a.go''
       = Inr ''x := a + b''"
proof -
  have h: "all_writes_succeed world_T"
    by (simp add: all_writes_succeed_def world_T_def)
  have r: "ReadFile world_T ''a.go'' = Inr ''x := a + b''"
    by (simp add: ReadFile_def world_T_def)
  have a: "applyAndTest runner_fail ''a.go'' 1 ''+'' ''-'' [''./...''] world_T =
       (True, \<lparr>files = [''a.go'' \<mapsto> ''x := a + b''], outcomes = []\<rparr>)"
    by (simp add: applyAndTest_def ReadFile_def WriteFile_def world_T_def runner_fail_def
        newline_def Let_def)
  from applyAndTest_restores [OF h, of runner_fail "''a.go''" 1 "''+''" "''-''" "[''./...'']"] h r a
  show ?thesis by simp
qed

text \<open>
  Claim C7, as stated: when the write that restores the original bytes fails, the
  failure is reported to the caller. On the code this fails: \<^verbatim>\<open>applyAndTest\<close> assigns
  the error of that write to the blank identifier and returns only the killed flag.
  Here the restoring write fails in \<open>world_F\<close> and leaves the mutated line on disk;
  the call returns what it returns in \<open>world_T\<close>, where the write succeeds, and so
  does \<^verbatim>\<open>Run\<close>: the same result with a nil error.
\<close>

theorem restore_failure_not_reported:
  "applyAndTest runner_pass ''a.go'' 1 ''+'' ''-'' [''./...''] world_F =
     (False, \<lparr>files = [''a.go'' \<mapsto> ''x := a - b''], outcomes = []\<rparr>)
   \<and> applyAndTest runner_pass ''a.go'' 1 ''+'' ''-'' [''./...''] world_T =
     (False, \<lparr>files = [''a.go'' \<mapsto> ''x := a + b''], outcomes = []\<rparr>)
   \<and> MutationRunner_Run parser_T runner_pass input_T world_F =
     (Inr (score_mutants [mutant_of ''a.go'' 1 MutationOperatorReplace ''+'' ''-'']),
      \<lparr>files = [''a.go'' \<mapsto> ''x := a - b''], outcomes = []\<rparr>)
   \<and> MutationRunner_Run parser_T runner_pass input_T world_T =
     (Inr (score_mutants [mutant_of ''a.go'' 1 MutationOperatorReplace ''+'' ''-'']),
      \<lparr>files = [''a.go'' \<mapsto> ''x := a + b''], outcomes = []\<rparr>)"
  by (simp add: applyAndTest_def ReadFile_def WriteFile_def world_T_def world_F_def
      runner_pass_def newline_def Let_def MutationRunner_Run_def MutationRunner_Applicable_def
      input_T_def parser_T_def tree_T_def findMutationSites_def HasSuffix_def
      operatorReplacement_def boundaryChange_def mutant_of_def)

text \<open>
  Claim C7, amended: a failure of the write that restores the original bytes is
  discarded. \<^verbatim>\<open>applyAndTest\<close> returns the killed flag alone, and that flag is the same
  whatever the outcome of the restoring write (and of any later write) is; the run
  proceeds.
\<close>

theorem applyAndTest_ignores_restore_outcome:
  "fst (applyAndTest m filePath line original mutated packages (w\<lparr>outcomes := oc # rest\<rparr>))
     = fst (applyAndTest m filePath line original mutated packages (w\<lparr>outcomes := oc # rest'\<rparr>))"
  by (cases oc)
     (auto simp: applyAndTest_def ReadFile_def WriteFile_def Let_def
           split: sum.splits option.splits prod.splits)

section \<open>Skip results and the translation validator\<close>

lemma tally_total:
  "fst (snd (tally ms (k, n, ev))) = n + length (filter (\<lambda>m. \<not> Equivalent m) ms)"
  by (induction ms arbitrary: k n ev) simp_all

lemma collect_mutants_unqualified:
  assumes "list_all (\<lambda>f. \<not> HasSuffix f ''.go'' \<or> HasSuffix f ''_test.go'') fs"
  shows "collect_mutants P w fs acc = acc"
  using assms by (induction fs arbitrary: acc) auto

text \<open>
  Claim C8. \<^verbatim>\<open>Run\<close> returns the skip result (verdict skip, score \<open>0\<close>, deterministic,
  no evidence) under the technique's own name and a nil error: for the mutation runner
  when it is not applicable, when no modified file qualifies, when discovery finds no
  site, and when no tested mutant is left after the equivalent ones are set aside; for
  the translation validator when it is not applicable and when no check is generated.
  Neither \<^verbatim>\<open>Run\<close> returns an error on any input.
\<close>

theorem Run_skips_without_error:
  "(\<not> MutationRunner_Applicable input \<longrightarrow>
      MutationRunner_Run ParseFile m input w = (Inr (skip_result ''mutation_testing''), w))
   \<and> (filter qualifying (ModifiedFiles input) = [] \<longrightarrow>
      MutationRunner_Run ParseFile m input w = (Inr (skip_result ''mutation_testing''), w))
   \<and> (collect_mutants ParseFile w (ModifiedFiles input) [] = [] \<longrightarrow>
      MutationRunner_Run ParseFile m input w = (Inr (skip_result ''mutation_testing''), w))
   \<and> (filter (\<lambda>mut. \<not> Equivalent mut) tested = [] \<longrightarrow>
      score_mutants tested = skip_result ''mutation_testing'')
   \<and> (filter (\<lambda>mut. \<not> Equivalent mut)
        (fst (apply_all m (ModifiedPackages input)
               (collect_mutants ParseFile w (ModifiedFiles input) []) w)) = [] \<longrightarrow>
      fst (MutationRunner_Run ParseFile m input w) = Inr (skip_result ''mutation_testing''))
   \<and> (\<not> TranslationValidator_Applicable input \<longrightarrow>
      TranslationValidator_Run t input = Inr (skip_result ''translation_validation''))
   \<and> (buildChecks t input = [] \<longrightarrow>
      TranslationValidator_Run t input = Inr (skip_result ''translation_validation''))
   \<and> skip_result name =
      \<lparr>Name = name, Score = Fin 0, Verdict = VerdictSkip, Evidence = [], Deterministic = True\<rparr>
   \<and> (\<exists>r. fst (MutationRunner_Run ParseFile m input w) = Inr r)
   \<and> (\<exists>r. TranslationValidator_Run t input = Inr r)"
proof -
  have a: "\<not> MutationRunner_Applicable input \<longrightarrow>
      MutationRunner_Run ParseFile m input w = (Inr (skip_result ''mutation_testing''), w)"
    by (simp add: MutationRunner_Run_def MutationRunner_Name_def)
  have c: "collect_mutants ParseFile w (ModifiedFiles input) [] = [] \<longrightarrow>
      MutationRunner_Run ParseFile m input w = (Inr (skip_result ''mutation_testing''), w)"
    by (simp add: MutationRunner_Run_def MutationRunner_Name_def)
  have b: "filter qualifying (ModifiedFiles input) = [] \<longrightarrow>
      MutationRunner_Run ParseFile m input w = (Inr (skip_result ''mutation_testing''), w)"
  proof
    assume "filter qualifying (ModifiedFiles input) = []"
    then have "list_all (\<lambda>f. \<not> HasSuffix f ''.go'' \<or> HasSuffix f ''_test.go'')
        (ModifiedFiles input)"
      by (auto simp: filter_empty_conv list_all_iff qualifying_def)
    then have "collect_mutants ParseFile w (ModifiedFiles input) [] = []"
      by (rule collect_mutants_unqualified)
    with c show "MutationRunner_Run ParseFile m input w = (Inr (skip_result ''mutation_testing''), w)"
      by simp
  qed
  have dd: "filter (\<lambda>mut. \<not> Equivalent mut) ts = [] \<longrightarrow>
      score_mutants ts = skip_result ''mutation_testing''" for ts
  proof
    assume e: "filter (\<lambda>mut. \<not> Equivalent mut) ts = []"
    obtain k n ev where t: "tally ts (0, 0, []) = (k, n, ev)"
      by (cases "tally ts (0, 0, [])")
    from tally_total [of ts 0 0 "[]"] t e have "n = 0" by simp
    with t show "score_mutants ts = skip_result ''mutation_testing''"
      by (simp add: score_mutants_def MutationRunner_Name_def)
  qed
  have d: "filter (\<lambda>mut. \<not> Equivalent mut) tested = [] \<longrightarrow>
      score_mutants tested = skip_result ''mutation_testing''"
    by (rule dd)
  have d': "filter (\<lambda>mut. \<not> Equivalent mut)
        (fst (apply_all m (ModifiedPackages input)
               (collect_mutants ParseFile w (ModifiedFiles input) []) w)) = [] \<longrightarrow>
      fst (MutationRunner_Run ParseFile m input w) = Inr (skip_result ''mutation_testing'')"
    using dd
    by (auto simp: MutationRunner_Run_def MutationRunner_Name_def Let_def split: prod.splits)
  have e: "\<not> TranslationValidator_Applicable input \<longrightarrow>
      TranslationValidator_Run t input = Inr (skip_result ''translation_validation'')"
    by (simp add: TranslationValidator_Run_def TranslationValidator_Name_def)
  have f: "buildChecks t input = [] \<longrightarrow>
      TranslationValidator_Run t input = Inr (skip_result ''translation_validation'')"
    by (simp add: TranslationValidator_Run_def TranslationValidator_Name_def)
  have g: "skip_result name =
      \<lparr>Name = name, Score = Fin 0, Verdict = VerdictSkip, Evidence = [], Deterministic = True\<rparr>"
    by (simp add: skip_result_def)
  have h: "\<exists>r. fst (MutationRunner_Run ParseFile m input w) = Inr r"
    by (simp add: MutationRunner_Run_def Let_def split: prod.splits)
  have i: "\<exists>r. TranslationValidator_Run t input = Inr r"
    by (simp add: TranslationValidator_Run_def Let_def split: prod.splits)
  from a b c d d' e f g h i show ?thesis by blast
qed

theorem Run_skips_without_error_witness:
  "\<not> MutationRunner_Applicable input_docs
   \<and> MutationRunner_Run parser_none runner_pass input_docs world_empty =
       (Inr \<lparr>Name = ''mutation_testing'', Score = Fin 0, Verdict = VerdictSkip, Evidence = [],
             Deterministic = True\<rparr>, world_empty)
   \<and> MutationRunner_Applicable input_tests_only
   \<and> filter qualifying (ModifiedFiles input_tests_only) = []
   \<and> collect_mutants parser_none world_empty (ModifiedFiles input_tests_only) [] = []
   \<and> filter (\<lambda>mut. \<not> Equivalent mut)
        (fst (apply_all runner_pass (ModifiedPackages input_tests_only)
               (collect_mutants parser_none world_empty (ModifiedFiles input_tests_only) [])
               world_empty)) = []
   \<and> MutationRunner_Run parser_none runner_pass input_tests_only world_empty =
       (Inr \<lparr>Name = ''mutation_testing'', Score = Fin 0, Verdict = VerdictSkip, Evidence = [],
             Deterministic = True\<rparr>, world_empty)
   \<and> filter (\<lambda>mut. \<not> Equivalent mut) tested_equivalent = []
   \<and> score_mutants tested_equivalent =
       \<lparr>Name = ''mutation_testing'', Score = Fin 0, Verdict = VerdictSkip, Evidence = [],
        Deterministic = True\<rparr>
   \<and> \<not> TranslationValidator_Applicable input_docs
   \<and> TranslationValidator_Run validator_T input_docs =
       Inr \<lparr>Name = ''translation_validation'', Score = Fin 0, Verdict = VerdictSkip,
            Evidence = [], Deterministic = True\<rparr>
   \<and> TranslationValidator_Applicable input_no_checks
   \<and> buildChecks validator_T input_no_checks = []
   \<and> TranslationValidator_Run validator_T input_no_checks =
       Inr \<lparr>Name = ''translation_validation'', Score = Fin 0, Verdict = VerdictSkip,
            Evidence = [], Deterministic = True\<rparr>"
proof -
  have a: "\<not> MutationRunner_Applicable input_docs"
    by (simp add: MutationRunner_Applicable_def input_docs_def)
  have b0: "MutationRunner_Applicable input_tests_only"
    by (simp add: MutationRunner_Applicable_def input_tests_only_def)
  have b: "filter qualifying (ModifiedFiles input_tests_only) = []"
    by (simp add: qualifying_def HasSuffix_def input_tests_only_def)
  have c: "collect_mutants parser_none world_empty (ModifiedFiles input_tests_only) [] = []"
    by (simp add: HasSuffix_def input_tests_only_def)
  have d: "filter (\<lambda>mut. \<not> Equivalent mut) tested_equivalent = []"
    by (simp add: tested_equivalent_def)
  have e: "\<not> TranslationValidator_Applicable input_docs"
    by (simp add: TranslationValidator_Applicable_def input_docs_def)
  have f0: "TranslationValidator_Applicable input_no_checks"
    by (simp add: TranslationValidator_Applicable_def input_no_checks_def)
  have f: "buildChecks validator_T input_no_checks = []"
    by (simp add: buildChecks_def input_no_checks_def)
  note t1 = Run_skips_without_error [where input = input_docs and ParseFile = parser_none
      and m = runner_pass and w = world_empty and tested = tested_equivalent
      and t = validator_T and name = "''mutation_testing''"]
  note t2 = Run_skips_without_error [where input = input_tests_only and ParseFile = parser_none
      and m = runner_pass and w = world_empty and tested = tested_equivalent
      and t = validator_T and name = "''translation_validation''"]
  note t3 = Run_skips_without_error [where input = input_no_checks and ParseFile = parser_none
      and m = runner_pass and w = world_empty and tested = tested_equivalent
      and t = validator_T and name = "''translation_validation''"]
  have c': "filter (\<lambda>mut. \<not> Equivalent mut)
        (fst (apply_all runner_pass (ModifiedPackages input_tests_only)
               (collect_mutants parser_none world_empty (ModifiedFiles input_tests_only) [])
               world_empty)) = []"
    by (simp add: c)
  from t1 t2 t3 a b0 b c c' d e f0 f show ?thesis
    by simp
qed

text \<open>One passed check of two: \<^verbatim>\<open>float64(1) / float64(2)\<close> is \<open>0.5\<close>.\<close>

lemma one_of_two: "fdiv (float64_of_nat (Suc 0)) (float64_of_nat (Suc (Suc 0))) = Fin (1 / 2)"
  by (simp add: float64_of_nat_def) (simp add: round64_eval)

text \<open>
  Claim C9 (Scenario D). With a PRD or use-case criterion present, exactly two modified
  file paths of which exactly one exists, and no declared package, the translation
  validator returns the score \<open>0.5\<close>, the verdict fail and exactly two evidence
  entries in the order of the paths, each with the criterion id \<open>file_exists\<close>, the
  detail of the existing file beginning with \<open>passed:\<close> and the other with
  \<open>failed:\<close>.
\<close>

theorem TranslationValidator_scenario_D:
  assumes "PRDCriteria input \<noteq> [] \<or> UCCriteria input \<noteq> []"
    and "ModifiedFiles input = [f1, f2]"
    and "ModifiedPackages input = []"
    and "fileExists t f1 \<noteq> fileExists t f2"
  shows "TranslationValidator_Run t input =
     Inr \<lparr>Name = ''translation_validation'', Score = Fin (1 / 2), Verdict = VerdictFail,
          Evidence =
            [\<lparr>CriterionID = ''file_exists'', FilePath = [],
              Detail = (if fileExists t f1 then ''passed: '' else ''failed: '')
                         @ ''file '' @ f1 @ '' exists''\<rparr>,
             \<lparr>CriterionID = ''file_exists'', FilePath = [],
              Detail = (if fileExists t f2 then ''passed: '' else ''failed: '')
                         @ ''file '' @ f2 @ '' exists''\<rparr>],
          Deterministic = True\<rparr>"
  using assms
  by (auto simp: TranslationValidator_Run_def TranslationValidator_Applicable_def
      TranslationValidator_Name_def buildChecks_def Let_def one_of_two)

theorem TranslationValidator_scenario_D_witness:
  "PRDCriteria input_D = [''Files present'']
   \<and> ModifiedFiles input_D = [''exists.go'', ''missing.go'']
   \<and> ModifiedPackages input_D = []
   \<and> fileExists validator_T ''exists.go'' \<noteq> fileExists validator_T ''missing.go''
   \<and> TranslationValidator_Run validator_T input_D =
       Inr \<lparr>Name = ''translation_validation'', Score = Fin (1 / 2), Verdict = VerdictFail,
            Evidence =
              [\<lparr>CriterionID = ''file_exists'', FilePath = [],
                Detail = ''passed: file exists.go exists''\<rparr>,
               \<lparr>CriterionID = ''file_exists'', FilePath = [],
                Detail = ''failed: file missing.go exists''\<rparr>],
            Deterministic = True\<rparr>"
proof -
  have a: "PRDCriteria input_D \<noteq> [] \<or> UCCriteria input_D \<noteq> []"
    by (simp add: input_D_def)
  have b: "ModifiedFiles input_D = [''exists.go'', ''missing.go'']"
    by (simp add: input_D_def)
  have c: "ModifiedPackages input_D = []"
    by (simp add: input_D_def)
  have d: "fileExists validator_T ''exists.go'' \<noteq> fileExists validator_T ''missing.go''"
    by (simp add: validator_T_def)
  have e: "fileExists validator_T ''exists.go''" "\<not> fileExists validator_T ''missing.go''"
    by (simp_all add: validator_T_def)
  have p: "PRDCriteria input_D = [''Files present'']"
    by (simp add: input_D_def)
  from TranslationValidator_scenario_D [OF a b c d] p b c d e
  show ?thesis by simp
qed

end
